theory Spec2Isabelle
  imports Main
begin

section \<open>Entity records\<close>

text \<open>
  The class hierarchy \<open>Student\<close> / \<open>Undergraduate\<close> / \<open>Postgraduate\<close> differs only in
  the label that the virtual \<open>getType\<close> returns, so the dynamic class of a student object is
  the field \<open>kind\<close> of one record.
\<close>

datatype student_kind = Undergraduate | Postgraduate

fun getType :: "student_kind \<Rightarrow> string" where
  "getType Undergraduate = ''Undergraduate''"
| "getType Postgraduate = ''Postgraduate''"

record student =
  name :: string
  studentID :: string
  enrolledCourses :: "string list"
  kind :: student_kind

record course =
  courseName :: string
  courseCode :: string
  enrolledStudentIDs :: "string list"

text \<open>\<open>Student::addCourse\<close>: push the code unless \<open>std::find\<close> already finds it.\<close>

definition Student_addCourse :: "string \<Rightarrow> student \<Rightarrow> student" where
  "Student_addCourse code s =
     (if code \<in> set (enrolledCourses s) then s
      else s\<lparr>enrolledCourses := enrolledCourses s @ [code]\<rparr>)"

text \<open>\<open>Student::removeCourse\<close>: the erase/remove idiom deletes every occurrence.\<close>

definition Student_removeCourse :: "string \<Rightarrow> student \<Rightarrow> student" where
  "Student_removeCourse code s = s\<lparr>enrolledCourses := removeAll code (enrolledCourses s)\<rparr>"

definition Course_addStudent :: "string \<Rightarrow> course \<Rightarrow> course" where
  "Course_addStudent sid c =
     (if sid \<in> set (enrolledStudentIDs c) then c
      else c\<lparr>enrolledStudentIDs := enrolledStudentIDs c @ [sid]\<rparr>)"

definition Course_removeStudent :: "string \<Rightarrow> course \<Rightarrow> course" where
  "Course_removeStudent sid c = c\<lparr>enrolledStudentIDs := removeAll sid (enrolledStudentIDs c)\<rparr>"


section \<open>The registry (class StudentManagement)\<close>

record StudentManagement =
  students :: "student list"
  courses :: "course list"

definition empty_registry :: StudentManagement where
  "empty_registry = \<lparr>students = [], courses = []\<rparr>"

text \<open>
  Every operation of the class prints one message and returns \<open>void\<close>. The message is the
  only report of which branch ran, so the model returns the branch as a value:
  \<^item> \<open>Success\<close>: the final message of the operation (``Student added'', ``Enrolled student'', ...);
  \<^item> \<open>DuplicateKey\<close>: ``... already exists.'';
  \<^item> \<open>NotFound\<close>: ``... not found.'';
  \<^item> \<open>InvalidArgument\<close>: ``Unknown student type. ...'';
  \<^item> \<open>AlreadyEnrolled\<close>: ``Student ... is already enrolled in course ...'';
  \<^item> \<open>IOFailure\<close>: ``Error opening file ...''.
\<close>

datatype outcome = Success | DuplicateKey | NotFound | InvalidArgument | AlreadyEnrolled | IOFailure

text \<open>
  The linear scans \<open>findStudentIndex\<close> and \<open>findCourseIndex\<close> return the first index whose
  key matches, or \<open>-1\<close>; here \<open>None\<close> stands for \<open>-1\<close>.
\<close>

fun find_index_from :: "('a \<Rightarrow> bool) \<Rightarrow> 'a list \<Rightarrow> nat \<Rightarrow> nat option" where
  "find_index_from P [] i = None"
| "find_index_from P (x # xs) i = (if P x then Some i else find_index_from P xs (Suc i))"

definition findStudentIndex :: "StudentManagement \<Rightarrow> string \<Rightarrow> nat option" where
  "findStudentIndex R sid = find_index_from (\<lambda>s. studentID s = sid) (students R) 0"

definition findCourseIndex :: "StudentManagement \<Rightarrow> string \<Rightarrow> nat option" where
  "findCourseIndex R code = find_index_from (\<lambda>c. courseCode c = code) (courses R) 0"

text \<open>\<open>v.erase(v.begin() + idx)\<close>.\<close>

definition erase_at :: "nat \<Rightarrow> 'a list \<Rightarrow> 'a list" where
  "erase_at idx xs = take idx xs @ drop (Suc idx) xs"

definition addStudent :: "string \<Rightarrow> string \<Rightarrow> string \<Rightarrow> StudentManagement \<Rightarrow> outcome \<times> StudentManagement" where
  "addStudent nm sid ty R =
     (if findStudentIndex R sid \<noteq> None then (DuplicateKey, R)
      else if ty = ''Undergraduate'' then
        (Success, R\<lparr>students := students R @
           [\<lparr>name = nm, studentID = sid, enrolledCourses = [], kind = Undergraduate\<rparr>]\<rparr>)
      else if ty = ''Postgraduate'' then
        (Success, R\<lparr>students := students R @
           [\<lparr>name = nm, studentID = sid, enrolledCourses = [], kind = Postgraduate\<rparr>]\<rparr>)
      else (InvalidArgument, R))"

definition removeStudent :: "string \<Rightarrow> StudentManagement \<Rightarrow> outcome \<times> StudentManagement" where
  "removeStudent sid R =
     (case findStudentIndex R sid of
        None \<Rightarrow> (NotFound, R)
      | Some idx \<Rightarrow>
          (Success, R\<lparr>courses := map (Course_removeStudent sid) (courses R),
                       students := erase_at idx (students R)\<rparr>))"

definition addCourse :: "string \<Rightarrow> string \<Rightarrow> StudentManagement \<Rightarrow> outcome \<times> StudentManagement" where
  "addCourse cname code R =
     (if findCourseIndex R code \<noteq> None then (DuplicateKey, R)
      else (Success, R\<lparr>courses := courses R @
              [\<lparr>courseName = cname, courseCode = code, enrolledStudentIDs = []\<rparr>]\<rparr>))"

definition removeCourse :: "string \<Rightarrow> StudentManagement \<Rightarrow> outcome \<times> StudentManagement" where
  "removeCourse code R =
     (case findCourseIndex R code of
        None \<Rightarrow> (NotFound, R)
      | Some idx \<Rightarrow>
          (Success, R\<lparr>students := map (Student_removeCourse code) (students R),
                       courses := erase_at idx (courses R)\<rparr>))"

definition enrollStudentInCourse :: "string \<Rightarrow> string \<Rightarrow> StudentManagement \<Rightarrow> outcome \<times> StudentManagement" where
  "enrollStudentInCourse sid code R =
     (case findStudentIndex R sid of
        None \<Rightarrow> (NotFound, R)
      | Some sIdx \<Rightarrow>
          (case findCourseIndex R code of
             None \<Rightarrow> (NotFound, R)
           | Some cIdx \<Rightarrow>
               if code \<in> set (enrolledCourses (students R ! sIdx)) then (AlreadyEnrolled, R)
               else (Success,
                 R\<lparr>students := (students R)[sIdx := Student_addCourse code (students R ! sIdx)],
                   courses := (courses R)[cIdx := Course_addStudent sid (courses R ! cIdx)]\<rparr>)))"

definition removeStudentFromCourse :: "string \<Rightarrow> string \<Rightarrow> StudentManagement \<Rightarrow> outcome \<times> StudentManagement" where
  "removeStudentFromCourse sid code R =
     (case findStudentIndex R sid of
        None \<Rightarrow> (NotFound, R)
      | Some sIdx \<Rightarrow>
          (case findCourseIndex R code of
             None \<Rightarrow> (NotFound, R)
           | Some cIdx \<Rightarrow>
               (Success,
                 R\<lparr>students := (students R)[sIdx := Student_removeCourse code (students R ! sIdx)],
                   courses := (courses R)[cIdx := Course_removeStudent sid (courses R ! cIdx)]\<rparr>)))"

text \<open>
  The mutating entries of the menu (cases 1, 2, 5, 6, 8 and 9 of \<open>main\<close>) as commands, and a
  session as the list of commands it issues.
\<close>

datatype command =
    AddStudent string string string
  | RemoveStudent string
  | AddCourse string string
  | RemoveCourse string
  | Enroll string string
  | Unenroll string string

fun exec :: "command \<Rightarrow> StudentManagement \<Rightarrow> StudentManagement" where
  "exec (AddStudent nm sid ty) R = snd (addStudent nm sid ty R)"
| "exec (RemoveStudent sid) R = snd (removeStudent sid R)"
| "exec (AddCourse cname code) R = snd (addCourse cname code R)"
| "exec (RemoveCourse code) R = snd (removeCourse code R)"
| "exec (Enroll sid code) R = snd (enrollStudentInCourse sid code R)"
| "exec (Unenroll sid code) R = snd (removeStudentFromCourse sid code R)"

definition run :: "command list \<Rightarrow> StudentManagement \<Rightarrow> StudentManagement" where
  "run cmds R = fold exec cmds R"


text \<open>\<open>populateDummyData\<close>: the fixed sample of five students, four courses and eight enrollments.\<close>

definition populateDummyData :: "StudentManagement \<Rightarrow> StudentManagement" where
  "populateDummyData R =
     run [AddStudent ''Alice Johnson'' ''S001'' ''Undergraduate'',
          AddStudent ''Bob Smith'' ''S002'' ''Postgraduate'',
          AddStudent ''Charlie Brown'' ''S003'' ''Undergraduate'',
          AddStudent ''David Williams'' ''S004'' ''Undergraduate'',
          AddStudent ''Eve Davis'' ''S005'' ''Postgraduate'',
          AddCourse ''Introduction to Programming'' ''CSE101'',
          AddCourse ''Data Structures'' ''CSE102'',
          AddCourse ''Algorithms'' ''CSE103'',
          AddCourse ''Operating Systems'' ''CSE104'',
          Enroll ''S001'' ''CSE101'',
          Enroll ''S001'' ''CSE102'',
          Enroll ''S002'' ''CSE101'',
          Enroll ''S003'' ''CSE103'',
          Enroll ''S004'' ''CSE104'',
          Enroll ''S005'' ''CSE101'',
          Enroll ''S005'' ''CSE102'',
          Enroll ''S005'' ''CSE104''] R"

definition dummy_registry :: StudentManagement where
  "dummy_registry = populateDummyData empty_registry"


section \<open>Searching\<close>

text \<open>
  \<open>s.find(keyword) != string::npos\<close>: \<open>std::string::find\<close> returns the first position at
  which the keyword starts, \<open>None\<close> standing for \<open>npos\<close>. The empty keyword is found at
  position 0 of every string, the empty one included.
\<close>

fun starts_with :: "string \<Rightarrow> string \<Rightarrow> bool" where
  "starts_with [] s = True"
| "starts_with (k # ks) [] = False"
| "starts_with (k # ks) (c # cs) = (k = c \<and> starts_with ks cs)"

fun str_find_from :: "string \<Rightarrow> string \<Rightarrow> nat \<Rightarrow> nat option" where
  "str_find_from kw [] i = (if kw = [] then Some i else None)"
| "str_find_from kw (c # cs) i =
     (if starts_with kw (c # cs) then Some i else str_find_from kw cs (Suc i))"

definition str_find :: "string \<Rightarrow> string \<Rightarrow> nat option" where
  "str_find s kw = str_find_from kw s 0"

text \<open>The line printed for a student that matches.\<close>

definition display_line :: "student \<Rightarrow> string" where
  "display_line s =
     ''Name: '' @ name s @ '', ID: '' @ studentID s @ '', Type: '' @ getType (kind s) @ [CHR 0x0A]"

text \<open>The inner loop over the enrolled courses, left by \<open>break\<close> at the first hit.\<close>

fun search_courses :: "string \<Rightarrow> string list \<Rightarrow> bool" where
  "search_courses kw [] = False"
| "search_courses kw (c # cs) = (if str_find c kw \<noteq> None then True else search_courses kw cs)"

text \<open>
  The loop over the students; the state is what has been printed so far (one entry per
  output statement) and the flag \<open>found\<close>.
\<close>

fun search_loop :: "string \<Rightarrow> student list \<Rightarrow> string list \<times> bool \<Rightarrow> string list \<times> bool" where
  "search_loop kw [] st = st"
| "search_loop kw (s # ss) (out, found) =
     (if str_find (name s) kw \<noteq> None \<or> str_find (studentID s) kw \<noteq> None
      then search_loop kw ss (out @ [display_line s], True)
      else if search_courses kw (enrolledCourses s)
      then search_loop kw ss (out @ [display_line s], True)
      else search_loop kw ss (out, found))"

definition search_header :: "string \<Rightarrow> string" where
  "search_header kw = [CHR 0x0A] @ ''--- Search Results for '' @ [CHR 0x22] @ kw @ [CHR 0x22]
     @ '' ---'' @ [CHR 0x0A]"

definition no_match_message :: string where
  "no_match_message = ''No matching student found.'' @ [CHR 0x0A]"

definition searchStudent :: "string \<Rightarrow> StudentManagement \<Rightarrow> string list" where
  "searchStudent kw R =
     (case search_loop kw (students R) ([search_header kw], False) of
        (out, found) \<Rightarrow> if \<not> found then out @ [no_match_message] else out)"


section \<open>Files\<close>

text \<open>
  The file system as the program sees it: the bytes stored under each path, and the paths
  that an \<open>ofstream\<close> cannot open. Opening an \<open>ifstream\<close> fails exactly on a path that
  holds no file. \<open>ensureDirectory\<close> has no effect on either component.
\<close>

record filesystem =
  contents :: "string \<Rightarrow> string option"
  locked :: "string set"

text \<open>The file system of a first run: no file yet, every path writable.\<close>

definition no_files :: filesystem where
  "no_files = \<lparr>contents = (\<lambda>path. None), locked = {}\<rparr>"

definition write_file :: "string \<Rightarrow> string \<Rightarrow> filesystem \<Rightarrow> filesystem" where
  "write_file path bytes fs = fs\<lparr>contents := (contents fs)(path \<mapsto> bytes)\<rparr>"


section \<open>Reports\<close>

definition report_line :: "student \<Rightarrow> string" where
  "report_line s = studentID s @ '','' @ name s @ '','' @ getType (kind s) @ [CHR 0x0A]"

text \<open>
  The loop over the roster: an id that \<open>findStudentIndex\<close> does not find writes nothing.
  Each line goes to the console and to the file; the model keeps what the file receives.
\<close>

fun report_loop :: "StudentManagement \<Rightarrow> string list \<Rightarrow> string \<Rightarrow> string" where
  "report_loop R [] out = out"
| "report_loop R (i # ids) out =
     (case findStudentIndex R i of
        None \<Rightarrow> report_loop R ids out
      | Some sIdx \<Rightarrow> report_loop R ids (out @ report_line (students R ! sIdx)))"

definition course_report_path :: "string \<Rightarrow> string" where
  "course_report_path code = ''Reports/CourseReports'' @ ''/'' @ code @ ''.csv''"

definition course_report_header :: string where
  "course_report_header = ''StudentID,Name,Type'' @ [CHR 0x0A]"

definition generateReportForCourse :: "string \<Rightarrow> StudentManagement \<Rightarrow> filesystem \<Rightarrow> outcome \<times> filesystem" where
  "generateReportForCourse code R fs =
     (case findCourseIndex R code of
        None \<Rightarrow> (NotFound, fs)
      | Some cIdx \<Rightarrow>
          if course_report_path code \<in> locked fs then (IOFailure, fs)
          else (Success, write_file (course_report_path code)
                  (report_loop R (enrolledStudentIDs (courses R ! cIdx)) course_report_header) fs))"


section \<open>The text codec\<close>

subsection \<open>Export\<close>

text \<open>The loop that writes a list joined by \<open>;\<close>, with no separator after the last entry.\<close>

fun join_semicolon :: "string list \<Rightarrow> string" where
  "join_semicolon [] = []"
| "join_semicolon [x] = x"
| "join_semicolon (x # y # ys) = x @ '';'' @ join_semicolon (y # ys)"

definition students_path :: string where
  "students_path = ''Students/students.csv''"

definition courses_path :: string where
  "courses_path = ''Courses/courses.csv''"

definition students_header :: string where
  "students_header = ''StudentID,Name,Type,EnrolledCourses'' @ [CHR 0x0A]"

definition courses_header :: string where
  "courses_header = ''CourseCode,CourseName,EnrolledStudents'' @ [CHR 0x0A]"

text \<open>What the body of the export loop writes for one record, before and with the newline.\<close>

definition student_line :: "student \<Rightarrow> string" where
  "student_line s = studentID s @ '','' @ name s @ '','' @ getType (kind s) @ '',''
     @ join_semicolon (enrolledCourses s)"

definition student_row :: "student \<Rightarrow> string" where
  "student_row s = student_line s @ [CHR 0x0A]"

definition course_line :: "course \<Rightarrow> string" where
  "course_line c = courseCode c @ '','' @ courseName c @ '',''
     @ join_semicolon (enrolledStudentIDs c)"

definition course_row :: "course \<Rightarrow> string" where
  "course_row c = course_line c @ [CHR 0x0A]"

definition exportStudentsToCSV :: "StudentManagement \<Rightarrow> filesystem \<Rightarrow> outcome \<times> filesystem" where
  "exportStudentsToCSV R fs =
     (if students_path \<in> locked fs then (IOFailure, fs)
      else (Success, write_file students_path
              (students_header @ concat (map student_row (students R))) fs))"

definition exportCoursesToCSV :: "StudentManagement \<Rightarrow> filesystem \<Rightarrow> outcome \<times> filesystem" where
  "exportCoursesToCSV R fs =
     (if courses_path \<in> locked fs then (IOFailure, fs)
      else (Success, write_file courses_path
              (courses_header @ concat (map course_row (courses R))) fs))"

text \<open>Saving is menu entry 12 (and the exit path): both exports, one after the other.\<close>

definition save :: "StudentManagement \<Rightarrow> filesystem \<Rightarrow> filesystem" where
  "save R fs = snd (exportCoursesToCSV R (snd (exportStudentsToCSV R fs)))"

subsection \<open>Input streams\<close>

text \<open>
  An input stream is \<open>Some rest\<close> while it is good, \<open>rest\<close> being the characters not yet
  read, and \<open>None\<close> once \<open>eofbit\<close> or \<open>failbit\<close> is set. \<open>std::getline(is, str, delim)\<close> on
  a stream that is not good fails and leaves \<open>str\<close> as it was. On a good stream it reads up
  to the delimiter, which it consumes and drops; when the input ends first it sets \<open>eofbit\<close>,
  and \<open>failbit\<close> too when it has read nothing. The result is whether the stream converts to
  \<open>true\<close> afterwards, the string, and the stream.
\<close>

type_synonym istream = "string option"

fun getline :: "char \<Rightarrow> istream \<Rightarrow> string \<Rightarrow> bool \<times> string \<times> istream" where
  "getline delim None str = (False, str, None)"
| "getline delim (Some rest) str =
     (if delim \<in> set rest
      then (True, takeWhile (\<lambda>c. c \<noteq> delim) rest, Some (tl (dropWhile (\<lambda>c. c \<noteq> delim) rest)))
      else (rest \<noteq> [], rest, None))"

definition stream_size :: "istream \<Rightarrow> nat" where
  "stream_size is = (case is of None \<Rightarrow> 0 | Some rest \<Rightarrow> Suc (length rest))"

lemma getline_consumes:
  assumes "getline delim is str = (True, s, is')"
  shows "stream_size is' < stream_size is"
proof (cases "is")
  case None
  with assms show ?thesis by simp
next
  case (Some rest)
  show ?thesis
  proof (cases "delim \<in> set rest")
    case True
    then have "dropWhile (\<lambda>c. c \<noteq> delim) rest \<noteq> []" by (simp add: dropWhile_eq_Nil_conv)
    then have "length (tl (dropWhile (\<lambda>c. c \<noteq> delim) rest))
                 < length (dropWhile (\<lambda>c. c \<noteq> delim) rest)"
      by simp
    also have "\<dots> \<le> length rest" by (rule length_dropWhile_le)
    finally show ?thesis using assms Some True by (auto simp: stream_size_def)
  next
    case False
    with assms Some show ?thesis by (auto simp: stream_size_def)
  qed
qed

text \<open>
  \<open>while (getline(is, str, delim)) body\<close>, for a body that does not touch the stream: the
  strings that the successive iterations see.
\<close>

function read_all :: "char \<Rightarrow> istream \<Rightarrow> string list" where
  "read_all delim is =
     (case getline delim is [] of
        (False, _, _) \<Rightarrow> []
      | (True, str, is') \<Rightarrow> str # read_all delim is')"
  by pat_completeness auto
termination
  apply (relation "measure (\<lambda>(delim, is). stream_size is)")
   apply simp
  apply (auto intro: getline_consumes [OF sym])
  done

declare read_all.simps [simp del]

subsection \<open>Load\<close>

text \<open>
  The inner loop of \<open>loadStudentsFromCSV\<close>: each code read from the fourth field is added
  to the student that \<open>findStudentIndex\<close> finds under the row's id, if any.
\<close>

definition load_student_code :: "string \<Rightarrow> string \<Rightarrow> StudentManagement \<Rightarrow> StudentManagement" where
  "load_student_code sid code R =
     (case findStudentIndex R sid of
        None \<Rightarrow> R
      | Some sIdx \<Rightarrow> R\<lparr>students := (students R)[sIdx := Student_addCourse code (students R ! sIdx)]\<rparr>)"

text \<open>The body of the loop over the lines of the students file.\<close>

definition load_student_line :: "string \<Rightarrow> StudentManagement \<Rightarrow> StudentManagement" where
  "load_student_line line R =
     (if line = [] then R
      else
        (case getline CHR '','' (Some line) [] of (_, sid, ss1) \<Rightarrow>
         case getline CHR '','' ss1 [] of (_, nm, ss2) \<Rightarrow>
         case getline CHR '','' ss2 [] of (_, ty, ss3) \<Rightarrow>
         case getline (CHR 0x0A) ss3 [] of (_, coursesStr, _) \<Rightarrow>
           let R1 = snd (addStudent nm sid ty R)
           in if coursesStr \<noteq> []
              then fold (load_student_code sid) (read_all CHR '';'' (Some coursesStr)) R1
              else R1))"

definition loadStudentsFromCSV :: "filesystem \<Rightarrow> StudentManagement \<Rightarrow> StudentManagement" where
  "loadStudentsFromCSV fs R =
     (case contents fs students_path of
        None \<Rightarrow> R
      | Some bytes \<Rightarrow>
          (case getline (CHR 0x0A) (Some bytes) [] of (_, _, file) \<Rightarrow>
             fold load_student_line (read_all (CHR 0x0A) file) R))"

definition load_course_student :: "string \<Rightarrow> string \<Rightarrow> StudentManagement \<Rightarrow> StudentManagement" where
  "load_course_student code sid R =
     (case findCourseIndex R code of
        None \<Rightarrow> R
      | Some cIdx \<Rightarrow> R\<lparr>courses := (courses R)[cIdx := Course_addStudent sid (courses R ! cIdx)]\<rparr>)"

definition load_course_line :: "string \<Rightarrow> StudentManagement \<Rightarrow> StudentManagement" where
  "load_course_line line R =
     (if line = [] then R
      else
        (case getline CHR '','' (Some line) [] of (_, code, ss1) \<Rightarrow>
         case getline CHR '','' ss1 [] of (_, cname, ss2) \<Rightarrow>
         case getline (CHR 0x0A) ss2 [] of (_, studentsStr, _) \<Rightarrow>
           let R1 = snd (addCourse cname code R)
           in if studentsStr \<noteq> []
              then fold (load_course_student code) (read_all CHR '';'' (Some studentsStr)) R1
              else R1))"

definition loadCoursesFromCSV :: "filesystem \<Rightarrow> StudentManagement \<Rightarrow> StudentManagement" where
  "loadCoursesFromCSV fs R =
     (case contents fs courses_path of
        None \<Rightarrow> R
      | Some bytes \<Rightarrow>
          (case getline (CHR 0x0A) (Some bytes) [] of (_, _, file) \<Rightarrow>
             fold load_course_line (read_all (CHR 0x0A) file) R))"

definition loadData :: "filesystem \<Rightarrow> StudentManagement \<Rightarrow> StudentManagement" where
  "loadData fs R = loadCoursesFromCSV fs (loadStudentsFromCSV fs R)"


text \<open>
  A directory as a user may leave it: a students file whose one row names the course
  \<open>CSE999\<close>, and no courses file.
\<close>

definition orphan_files :: filesystem where
  "orphan_files = \<lparr>contents = (\<lambda>path. None)(students_path \<mapsto>
      ''StudentID,Name,Type,EnrolledCourses'' @ [CHR 0x0A] @
      ''S001,Alice Johnson,Undergraduate,CSE999'' @ [CHR 0x0A]), locked = {}\<rparr>"


text \<open>
  The registry after a restart of the program: a session adds a student and a course whose
  name has a comma, enrolls the student and exits (which saves), and the next start of
  \<open>main\<close> loads the files into the empty registry.
\<close>

definition restarted_registry :: StudentManagement where
  "restarted_registry =
     loadData
       (save (run [AddStudent ''Alice Johnson'' ''S001'' ''Undergraduate'',
                   AddCourse ''Algorithms, Advanced'' ''CSE103'',
                   Enroll ''S001'' ''CSE103''] empty_registry) no_files)
       empty_registry"


section \<open>Properties of a registry\<close>

text \<open>Student ids and course codes are each unique within their collection.\<close>

definition unique_keys :: "StudentManagement \<Rightarrow> bool" where
  "unique_keys R \<longleftrightarrow>
     distinct (map studentID (students R)) \<and> distinct (map courseCode (courses R))"

text \<open>No transcript and no roster lists an entry twice.\<close>

definition duplicate_free :: "StudentManagement \<Rightarrow> bool" where
  "duplicate_free R \<longleftrightarrow>
     (\<forall>s\<in>set (students R). distinct (enrolledCourses s)) \<and>
     (\<forall>c\<in>set (courses R). distinct (enrolledStudentIDs c))"

text \<open>
  Referential symmetry: a code is in a student's transcript iff the course of that code lists
  the student's id in its roster, and an id is in a course's roster iff the student of that
  id lists the course's code in its transcript. An entry that names no course, or no
  student, of the registry therefore breaks it.
\<close>

definition referential_symmetry :: "StudentManagement \<Rightarrow> bool" where
  "referential_symmetry R \<longleftrightarrow>
     (\<forall>s\<in>set (students R). \<forall>k.
        k \<in> set (enrolledCourses s) \<longleftrightarrow>
        (\<exists>c\<in>set (courses R). courseCode c = k \<and> studentID s \<in> set (enrolledStudentIDs c))) \<and>
     (\<forall>c\<in>set (courses R). \<forall>i.
        i \<in> set (enrolledStudentIDs c) \<longleftrightarrow>
        (\<exists>s\<in>set (students R). studentID s = i \<and> courseCode c \<in> set (enrolledCourses s)))"

text \<open>The same, for the pairs of a student and a course that are both in the registry.\<close>

definition pairwise_symmetry :: "StudentManagement \<Rightarrow> bool" where
  "pairwise_symmetry R \<longleftrightarrow>
     (\<forall>s\<in>set (students R). \<forall>c\<in>set (courses R).
        courseCode c \<in> set (enrolledCourses s) \<longleftrightarrow> studentID s \<in> set (enrolledStudentIDs c))"

text \<open>No dangling reference: every transcript entry names a course, every roster entry a student.\<close>

definition no_dangling :: "StudentManagement \<Rightarrow> bool" where
  "no_dangling R \<longleftrightarrow>
     (\<forall>s\<in>set (students R). \<forall>k\<in>set (enrolledCourses s). \<exists>c\<in>set (courses R). courseCode c = k) \<and>
     (\<forall>c\<in>set (courses R). \<forall>i\<in>set (enrolledStudentIDs c). \<exists>s\<in>set (students R). studentID s = i)"

definition consistent :: "StudentManagement \<Rightarrow> bool" where
  "consistent R \<longleftrightarrow> unique_keys R \<and> duplicate_free R \<and> pairwise_symmetry R \<and> no_dangling R"

text \<open>The enrollment pairs (student id, course code), read off the transcripts and off the rosters.\<close>

definition transcript_pairs :: "StudentManagement \<Rightarrow> (string \<times> string) set" where
  "transcript_pairs R = {(studentID s, k) | s k. s \<in> set (students R) \<and> k \<in> set (enrolledCourses s)}"

definition roster_pairs :: "StudentManagement \<Rightarrow> (string \<times> string) set" where
  "roster_pairs R = {(i, courseCode c) | i c. c \<in> set (courses R) \<and> i \<in> set (enrolledStudentIDs c)}"

text \<open>\<open>kw\<close> occurs in \<open>s\<close> as a substring (of the same bytes, so case-sensitively).\<close>

definition is_substring :: "string \<Rightarrow> string \<Rightarrow> bool" where
  "is_substring kw s \<longleftrightarrow> (\<exists>pre post. s = pre @ kw @ post)"

definition matches :: "string \<Rightarrow> student \<Rightarrow> bool" where
  "matches kw s \<longleftrightarrow>
     is_substring kw (name s) \<or> is_substring kw (studentID s) \<or>
     (\<exists>c\<in>set (enrolledCourses s). is_substring kw c)"

text \<open>
  What the text format can carry. A field of a row must not contain the field separator or
  the line terminator; an entry of a \<open>;\<close>-joined list must not contain \<open>;\<close> or the line
  terminator, and must not be empty.
\<close>

definition field_ok :: "string \<Rightarrow> bool" where
  "field_ok s \<longleftrightarrow> CHR '','' \<notin> set s \<and> CHR 0x0A \<notin> set s"

definition entry_ok :: "string \<Rightarrow> bool" where
  "entry_ok s \<longleftrightarrow> s \<noteq> [] \<and> CHR '';'' \<notin> set s \<and> CHR 0x0A \<notin> set s"

definition student_ok :: "student \<Rightarrow> bool" where
  "student_ok s \<longleftrightarrow>
     field_ok (studentID s) \<and> field_ok (name s) \<and>
     distinct (enrolledCourses s) \<and> list_all entry_ok (enrolledCourses s)"

definition course_ok :: "course \<Rightarrow> bool" where
  "course_ok c \<longleftrightarrow>
     field_ok (courseCode c) \<and> field_ok (courseName c) \<and>
     distinct (enrolledStudentIDs c) \<and> list_all entry_ok (enrolledStudentIDs c)"

definition storable :: "StudentManagement \<Rightarrow> bool" where
  "storable R \<longleftrightarrow>
     unique_keys R \<and> list_all student_ok (students R) \<and> list_all course_ok (courses R)"

text \<open>The student stored under an id, if any.\<close>

definition lookup_student :: "StudentManagement \<Rightarrow> string \<Rightarrow> student option" where
  "lookup_student R sid = find (\<lambda>s. studentID s = sid) (students R)"


section \<open>Linear scans and index updates\<close>

lemma find_index_from_None:
  "find_index_from P xs i = None \<longleftrightarrow> (\<forall>x\<in>set xs. \<not> P x)"
  by (induction xs arbitrary: i) auto

lemma find_index_from_Some:
  "find_index_from P xs i = Some j \<Longrightarrow>
     i \<le> j \<and> j - i < length xs \<and> P (xs ! (j - i)) \<and> (\<forall>x\<in>set (take (j - i) xs). \<not> P x)"
proof (induction xs arbitrary: i)
  case Nil
  then show ?case by simp
next
  case (Cons x xs)
  show ?case
  proof (cases "P x")
    case True
    with Cons.prems show ?thesis by simp
  next
    case False
    with Cons.prems have "find_index_from P xs (Suc i) = Some j" by simp
    from Cons.IH[OF this] have ih: "Suc i \<le> j" "j - Suc i < length xs" "P (xs ! (j - Suc i))"
      "\<forall>x\<in>set (take (j - Suc i) xs). \<not> P x" by auto
    from ih(1) have e: "j - i = Suc (j - Suc i)" by simp
    show ?thesis using ih False by (simp add: e)
  qed
qed

lemma find_index_from_0:
  assumes "find_index_from P xs 0 = Some j"
  shows "j < length xs" "P (xs ! j)" "\<forall>x\<in>set (take j xs). \<not> P x"
  using find_index_from_Some[OF assms] by auto

lemma find_index_from_exists:
  "x \<in> set xs \<Longrightarrow> P x \<Longrightarrow> \<exists>j. find_index_from P xs i = Some j"
  using find_index_from_None[of P xs i] by (cases "find_index_from P xs i") auto

text \<open>With unique keys, the index-based updates are key-based maps and filters.\<close>

lemma key_inj_nth:
  assumes "distinct (map key xs)" "i < length xs" "j < length xs" "key (xs ! i) = key (xs ! j)"
  shows "i = j"
proof -
  from assms have "map key xs ! i = map key xs ! j" by simp
  with assms(1,2,3) show ?thesis by (simp add: nth_eq_iff_index_eq del: nth_map)
qed

lemma update_at_key:
  assumes "distinct (map key xs)" "j < length xs" "key (xs ! j) = k"
  shows "xs[j := f (xs ! j)] = map (\<lambda>x. if key x = k then f x else x) xs"
proof (rule nth_equalityI)
  show "length (xs[j := f (xs ! j)]) = length (map (\<lambda>x. if key x = k then f x else x) xs)" by simp
next
  fix i assume "i < length (xs[j := f (xs ! j)])"
  then have i: "i < length xs" by simp
  show "xs[j := f (xs ! j)] ! i = map (\<lambda>x. if key x = k then f x else x) xs ! i"
  proof (cases "i = j")
    case True
    with assms show ?thesis by simp
  next
    case False
    with key_inj_nth[OF assms(1) i assms(2)] assms(3) have "key (xs ! i) \<noteq> k" by auto
    with False i show ?thesis by simp
  qed
qed

lemma erase_at_key:
  assumes "distinct (map key xs)" "j < length xs" "key (xs ! j) = k"
  shows "erase_at j xs = filter (\<lambda>x. key x \<noteq> k) xs"
proof -
  have xs: "xs = take j xs @ xs ! j # drop (Suc j) xs"
    using assms(2) by (simp add: id_take_nth_drop)
  have a: "key x \<noteq> k" if "x \<in> set (take j xs)" for x
  proof -
    from that obtain i where i: "i < j" "i < length xs" "x = xs ! i"
      by (auto simp: in_set_conv_nth)
    with key_inj_nth[OF assms(1) i(2) assms(2)] assms(3) show ?thesis by auto
  qed
  have b: "key x \<noteq> k" if "x \<in> set (drop (Suc j) xs)" for x
  proof -
    from that obtain i where i: "i < length xs - Suc j" "x = xs ! (Suc j + i)"
      by (auto simp: in_set_conv_nth)
    then have "Suc j + i < length xs" by simp
    with key_inj_nth[OF assms(1) this assms(2)] assms(3) i show ?thesis by auto
  qed
  have "filter (\<lambda>x. key x \<noteq> k) xs =
        filter (\<lambda>x. key x \<noteq> k) (take j xs) @ filter (\<lambda>x. key x \<noteq> k) [xs ! j]
          @ filter (\<lambda>x. key x \<noteq> k) (drop (Suc j) xs)"
    by (subst xs) (simp del: append_take_drop_id)
  also have "filter (\<lambda>x. key x \<noteq> k) (take j xs) = take j xs"
    using a by (simp add: filter_id_conv)
  also have "filter (\<lambda>x. key x \<noteq> k) (drop (Suc j) xs) = drop (Suc j) xs"
    using b by (simp add: filter_id_conv)
  finally show ?thesis using assms(3) by (simp add: erase_at_def)
qed

lemma findStudentIndex_None:
  "findStudentIndex R sid = None \<longleftrightarrow> sid \<notin> studentID ` set (students R)"
  by (auto simp: findStudentIndex_def find_index_from_None)

lemma findCourseIndex_None:
  "findCourseIndex R code = None \<longleftrightarrow> code \<notin> courseCode ` set (courses R)"
  by (auto simp: findCourseIndex_def find_index_from_None)

lemma findStudentIndex_Some:
  assumes "findStudentIndex R sid = Some i"
  shows "i < length (students R)" "studentID (students R ! i) = sid"
    "students R ! i \<in> set (students R)"
  using find_index_from_0[OF assms[unfolded findStudentIndex_def]] by auto

lemma findCourseIndex_Some:
  assumes "findCourseIndex R code = Some j"
  shows "j < length (courses R)" "courseCode (courses R ! j) = code"
    "courses R ! j \<in> set (courses R)"
  using find_index_from_0[OF assms[unfolded findCourseIndex_def]] by auto

text \<open>The operations on a registry with unique keys, by key instead of by index.\<close>

lemma removeStudent_by_key:
  assumes "unique_keys R" "findStudentIndex R sid = Some i"
  shows "removeStudent sid R =
    (Success, R\<lparr>courses := map (Course_removeStudent sid) (courses R),
                 students := filter (\<lambda>s. studentID s \<noteq> sid) (students R)\<rparr>)"
  using assms findStudentIndex_Some[OF assms(2)]
  by (simp add: removeStudent_def unique_keys_def erase_at_key[of studentID])

lemma removeCourse_by_key:
  assumes "unique_keys R" "findCourseIndex R code = Some j"
  shows "removeCourse code R =
    (Success, R\<lparr>students := map (Student_removeCourse code) (students R),
                 courses := filter (\<lambda>c. courseCode c \<noteq> code) (courses R)\<rparr>)"
  using assms findCourseIndex_Some[OF assms(2)]
  by (simp add: removeCourse_def unique_keys_def erase_at_key[of courseCode])

lemma enroll_by_key:
  assumes "unique_keys R" "findStudentIndex R sid = Some i" "findCourseIndex R code = Some j"
    "code \<notin> set (enrolledCourses (students R ! i))"
  shows "enrollStudentInCourse sid code R =
    (Success, R\<lparr>students := map (\<lambda>s. if studentID s = sid then Student_addCourse code s else s) (students R),
                 courses := map (\<lambda>c. if courseCode c = code then Course_addStudent sid c else c) (courses R)\<rparr>)"
  using assms findStudentIndex_Some[OF assms(2)] findCourseIndex_Some[OF assms(3)]
  by (simp add: enrollStudentInCourse_def unique_keys_def
      update_at_key[of studentID] update_at_key[of courseCode])

lemma unenroll_by_key:
  assumes "unique_keys R" "findStudentIndex R sid = Some i" "findCourseIndex R code = Some j"
  shows "removeStudentFromCourse sid code R =
    (Success, R\<lparr>students := map (\<lambda>s. if studentID s = sid then Student_removeCourse code s else s) (students R),
                 courses := map (\<lambda>c. if courseCode c = code then Course_removeStudent sid c else c) (courses R)\<rparr>)"
  using assms findStudentIndex_Some[OF assms(2)] findCourseIndex_Some[OF assms(3)]
  by (simp add: removeStudentFromCourse_def unique_keys_def
      update_at_key[of studentID] update_at_key[of courseCode])


section \<open>The invariant of the registry operations\<close>

lemma studentID_addCourse [simp]: "studentID (Student_addCourse k s) = studentID s"
  by (simp add: Student_addCourse_def)
lemma studentID_removeCourse [simp]: "studentID (Student_removeCourse k s) = studentID s"
  by (simp add: Student_removeCourse_def)
lemma courseCode_addStudent [simp]: "courseCode (Course_addStudent i c) = courseCode c"
  by (simp add: Course_addStudent_def)
lemma courseCode_removeStudent [simp]: "courseCode (Course_removeStudent i c) = courseCode c"
  by (simp add: Course_removeStudent_def)
lemma set_addCourse [simp]: "set (enrolledCourses (Student_addCourse k s)) = insert k (set (enrolledCourses s))"
  by (auto simp: Student_addCourse_def)
lemma set_removeCourse [simp]: "set (enrolledCourses (Student_removeCourse k s)) = set (enrolledCourses s) - {k}"
  by (auto simp: Student_removeCourse_def)
lemma set_addStudent [simp]: "set (enrolledStudentIDs (Course_addStudent i c)) = insert i (set (enrolledStudentIDs c))"
  by (auto simp: Course_addStudent_def)
lemma set_removeStudent [simp]: "set (enrolledStudentIDs (Course_removeStudent i c)) = set (enrolledStudentIDs c) - {i}"
  by (auto simp: Course_removeStudent_def)
lemma distinct_addCourse [simp]: "distinct (enrolledCourses (Student_addCourse k s)) = distinct (enrolledCourses s)"
  by (auto simp: Student_addCourse_def)
lemma distinct_removeCourse [simp]: "distinct (enrolledCourses s) \<Longrightarrow> distinct (enrolledCourses (Student_removeCourse k s))"
  by (auto simp: Student_removeCourse_def distinct_removeAll)
lemma distinct_addStudent [simp]: "distinct (enrolledStudentIDs (Course_addStudent i c)) = distinct (enrolledStudentIDs c)"
  by (auto simp: Course_addStudent_def)
lemma distinct_removeStudent [simp]: "distinct (enrolledStudentIDs c) \<Longrightarrow> distinct (enrolledStudentIDs (Course_removeStudent i c))"
  by (auto simp: Course_removeStudent_def distinct_removeAll)

lemma no_dangling_alt:
  "no_dangling R \<longleftrightarrow>
     (\<forall>s\<in>set (students R). \<forall>k\<in>set (enrolledCourses s). k \<in> courseCode ` set (courses R)) \<and>
     (\<forall>c\<in>set (courses R). \<forall>i\<in>set (enrolledStudentIDs c). i \<in> studentID ` set (students R))"
proof -
  have h: "(\<exists>c\<in>A. f c = k) \<longleftrightarrow> k \<in> f ` A" for f :: "'a \<Rightarrow> string" and A k
    by auto
  show ?thesis unfolding no_dangling_def by (simp only: h)
qed

lemma key_set_map_if:
  assumes "\<And>x. key (f x) = key x"
  shows "key ` set (map (\<lambda>x. if P x then f x else x) xs) = key ` set xs"
proof -
  have "map key (map (\<lambda>x. if P x then f x else x) xs) = map key xs"
    using assms by (induction xs) auto
  then have "set (map key (map (\<lambda>x. if P x then f x else x) xs)) = set (map key xs)"
    by simp
  then show ?thesis by (simp only: set_map)
qed

lemma key_comp_if: "(\<And>x. key (f x) = key x) \<Longrightarrow> key \<circ> (\<lambda>x. if P x then f x else x) = key"
  by (auto simp: fun_eq_iff)

lemma consistent_addStudent:
  assumes "consistent R" shows "consistent (snd (addStudent nm sid ty R))"
proof (cases "findStudentIndex R sid")
  case (Some i)
  with assms show ?thesis by (simp add: addStudent_def)
next
  case None
  then have new: "sid \<notin> studentID ` set (students R)" by (simp add: findStudentIndex_None)
  have u: "unique_keys R" and d: "duplicate_free R" and r: "pairwise_symmetry R" and n: "no_dangling R"
    using assms by (auto simp: consistent_def)
  from n new have fresh: "\<forall>c\<in>set (courses R). sid \<notin> set (enrolledStudentIDs c)"
    unfolding no_dangling_alt by blast
  have "unique_keys (snd (addStudent nm sid ty R))"
    using u new by (auto simp: addStudent_def unique_keys_def None)
  moreover have "duplicate_free (snd (addStudent nm sid ty R))"
    using d by (auto simp: addStudent_def duplicate_free_def None)
  moreover have "pairwise_symmetry (snd (addStudent nm sid ty R))"
    using r fresh by (auto simp: addStudent_def pairwise_symmetry_def None)
  moreover have "no_dangling (snd (addStudent nm sid ty R))"
    using n by (auto simp: addStudent_def no_dangling_def None)
  ultimately show ?thesis by (simp add: consistent_def)
qed

lemma consistent_addCourse:
  assumes "consistent R" shows "consistent (snd (addCourse cname code R))"
proof (cases "findCourseIndex R code")
  case (Some i)
  with assms show ?thesis by (simp add: addCourse_def)
next
  case None
  then have new: "code \<notin> courseCode ` set (courses R)" by (simp add: findCourseIndex_None)
  have u: "unique_keys R" and d: "duplicate_free R" and r: "pairwise_symmetry R" and n: "no_dangling R"
    using assms by (auto simp: consistent_def)
  from n new have fresh: "\<forall>s\<in>set (students R). code \<notin> set (enrolledCourses s)"
    unfolding no_dangling_alt by blast
  have "unique_keys (snd (addCourse cname code R))"
    using u new by (auto simp: addCourse_def unique_keys_def None)
  moreover have "duplicate_free (snd (addCourse cname code R))"
    using d by (auto simp: addCourse_def duplicate_free_def None)
  moreover have "pairwise_symmetry (snd (addCourse cname code R))"
    using r fresh by (auto simp: addCourse_def pairwise_symmetry_def None)
  moreover have "no_dangling (snd (addCourse cname code R))"
    using n by (auto simp: addCourse_def no_dangling_def None)
  ultimately show ?thesis by (simp add: consistent_def)
qed

lemma consistent_removeStudent:
  assumes "consistent R" shows "consistent (snd (removeStudent sid R))"
proof (cases "findStudentIndex R sid")
  case None
  with assms show ?thesis by (simp add: removeStudent_def)
next
  case (Some i)
  have u: "unique_keys R" and d: "duplicate_free R" and r: "pairwise_symmetry R" and n: "no_dangling R"
    using assms by (auto simp: consistent_def)
  note eq = removeStudent_by_key[OF u Some]
  have "unique_keys (snd (removeStudent sid R))"
    using u by (simp add: eq unique_keys_def distinct_map_filter o_def)
  moreover have "duplicate_free (snd (removeStudent sid R))"
    using d by (auto simp: eq duplicate_free_def)
  moreover have "pairwise_symmetry (snd (removeStudent sid R))"
    using r by (auto simp: eq pairwise_symmetry_def)
  moreover have "no_dangling (snd (removeStudent sid R))"
    using n by (force simp: eq no_dangling_def)
  ultimately show ?thesis by (simp add: consistent_def)
qed

lemma consistent_removeCourse:
  assumes "consistent R" shows "consistent (snd (removeCourse code R))"
proof (cases "findCourseIndex R code")
  case None
  with assms show ?thesis by (simp add: removeCourse_def)
next
  case (Some i)
  have u: "unique_keys R" and d: "duplicate_free R" and r: "pairwise_symmetry R" and n: "no_dangling R"
    using assms by (auto simp: consistent_def)
  note eq = removeCourse_by_key[OF u Some]
  have "unique_keys (snd (removeCourse code R))"
    using u by (simp add: eq unique_keys_def distinct_map_filter o_def)
  moreover have "duplicate_free (snd (removeCourse code R))"
    using d by (auto simp: eq duplicate_free_def)
  moreover have "pairwise_symmetry (snd (removeCourse code R))"
    using r by (auto simp: eq pairwise_symmetry_def)
  moreover have "no_dangling (snd (removeCourse code R))"
    using n by (force simp: eq no_dangling_def)
  ultimately show ?thesis by (simp add: consistent_def)
qed

lemma consistent_enroll:
  assumes "consistent R" shows "consistent (snd (enrollStudentInCourse sid code R))"
proof -
  have u: "unique_keys R" and d: "duplicate_free R" and r: "pairwise_symmetry R" and n: "no_dangling R"
    using assms by (auto simp: consistent_def)
  show ?thesis
  proof (cases "findStudentIndex R sid")
    case None
    with assms show ?thesis by (simp add: enrollStudentInCourse_def)
  next
    case (Some i)
    note si = this
    show ?thesis
    proof (cases "findCourseIndex R code")
      case None
      with assms si show ?thesis by (simp add: enrollStudentInCourse_def)
    next
      case (Some j)
      show ?thesis
      proof (cases "code \<in> set (enrolledCourses (students R ! i))")
        case True
        with assms si Some show ?thesis by (simp add: enrollStudentInCourse_def)
      next
        case False
        note eq = enroll_by_key[OF u si Some False]
        have sin: "sid \<in> studentID ` set (students R)"
          using findStudentIndex_Some[OF si] by force
        have cin: "code \<in> courseCode ` set (courses R)"
          using findCourseIndex_Some[OF Some] by force
        define R' where "R' = snd (enrollStudentInCourse sid code R)"
        have st: "students R' = map (\<lambda>s. if studentID s = sid then Student_addCourse code s else s) (students R)"
          and co: "courses R' = map (\<lambda>c. if courseCode c = code then Course_addStudent sid c else c) (courses R)"
          by (simp_all add: R'_def eq)
        have ids: "studentID ` set (students R') = studentID ` set (students R)"
          unfolding st by (rule key_set_map_if) simp
        have codes: "courseCode ` set (courses R') = courseCode ` set (courses R)"
          unfolding co by (rule key_set_map_if) simp
        have nd: "no_dangling R'"
          unfolding no_dangling_alt ids codes using n sin cin by (auto simp: st co no_dangling_alt)
        have "unique_keys (snd (enrollStudentInCourse sid code R))"
          using u by (simp add: eq unique_keys_def key_comp_if)
        moreover have "duplicate_free (snd (enrollStudentInCourse sid code R))"
          using d by (auto simp: eq duplicate_free_def)
        moreover have "pairwise_symmetry (snd (enrollStudentInCourse sid code R))"
          using r by (auto simp: eq pairwise_symmetry_def)
        moreover have "no_dangling (snd (enrollStudentInCourse sid code R))"
          using nd by (simp add: R'_def)
        ultimately show ?thesis by (simp add: consistent_def)
      qed
    qed
  qed
qed

lemma consistent_unenroll:
  assumes "consistent R" shows "consistent (snd (removeStudentFromCourse sid code R))"
proof -
  have u: "unique_keys R" and d: "duplicate_free R" and r: "pairwise_symmetry R" and n: "no_dangling R"
    using assms by (auto simp: consistent_def)
  show ?thesis
  proof (cases "findStudentIndex R sid")
    case None
    with assms show ?thesis by (simp add: removeStudentFromCourse_def)
  next
    case (Some i)
    note si = this
    show ?thesis
    proof (cases "findCourseIndex R code")
      case None
      with assms si show ?thesis by (simp add: removeStudentFromCourse_def)
    next
      case (Some j)
      note eq = unenroll_by_key[OF u si Some]
      define R' where "R' = snd (removeStudentFromCourse sid code R)"
      have st: "students R' = map (\<lambda>s. if studentID s = sid then Student_removeCourse code s else s) (students R)"
        and co: "courses R' = map (\<lambda>c. if courseCode c = code then Course_removeStudent sid c else c) (courses R)"
        by (simp_all add: R'_def eq)
      have ids: "studentID ` set (students R') = studentID ` set (students R)"
        unfolding st by (rule key_set_map_if) simp
      have codes: "courseCode ` set (courses R') = courseCode ` set (courses R)"
        unfolding co by (rule key_set_map_if) simp
      have nd: "no_dangling R'"
        unfolding no_dangling_alt ids codes using n by (auto simp: st co no_dangling_alt)
      have "unique_keys (snd (removeStudentFromCourse sid code R))"
        using u by (simp add: eq unique_keys_def key_comp_if)
      moreover have "duplicate_free (snd (removeStudentFromCourse sid code R))"
        using d by (auto simp: eq duplicate_free_def)
      moreover have "pairwise_symmetry (snd (removeStudentFromCourse sid code R))"
        using r by (auto simp: eq pairwise_symmetry_def)
      moreover have "no_dangling (snd (removeStudentFromCourse sid code R))"
        using nd by (simp add: R'_def)
      ultimately show ?thesis by (simp add: consistent_def)
    qed
  qed
qed

lemma consistent_exec: "consistent R \<Longrightarrow> consistent (exec cmd R)"
  by (cases cmd)
    (simp_all add: consistent_addStudent consistent_addCourse consistent_removeStudent
      consistent_removeCourse consistent_enroll consistent_unenroll)

lemma consistent_empty: "consistent empty_registry"
  by (simp add: consistent_def unique_keys_def duplicate_free_def pairwise_symmetry_def
      no_dangling_def empty_registry_def)

lemma consistent_fold: "consistent R \<Longrightarrow> consistent (fold exec cmds R)"
  by (induction cmds arbitrary: R) (simp_all add: consistent_exec)

lemma consistent_run: "consistent (run cmds empty_registry)"
  by (simp add: run_def consistent_fold consistent_empty)

lemma consistent_symmetry:
  assumes "consistent R" shows "referential_symmetry R"
proof -
  have u: "unique_keys R" and r: "pairwise_symmetry R" and n: "no_dangling R"
    using assms by (auto simp: consistent_def)
  have cu: "c = c'" if "c \<in> set (courses R)" "c' \<in> set (courses R)" "courseCode c = courseCode c'" for c c'
    using u that by (auto simp: unique_keys_def distinct_map inj_on_def)
  have su: "s = s'" if "s \<in> set (students R)" "s' \<in> set (students R)" "studentID s = studentID s'" for s s'
    using u that by (auto simp: unique_keys_def distinct_map inj_on_def)
  have a: "k \<in> set (enrolledCourses s) \<longleftrightarrow>
        (\<exists>c\<in>set (courses R). courseCode c = k \<and> studentID s \<in> set (enrolledStudentIDs c))"
    if s: "s \<in> set (students R)" for s k
  proof
    assume k: "k \<in> set (enrolledCourses s)"
    with n s obtain c where "c \<in> set (courses R)" "courseCode c = k"
      unfolding no_dangling_def by blast
    with r s k show "\<exists>c\<in>set (courses R). courseCode c = k \<and> studentID s \<in> set (enrolledStudentIDs c)"
      unfolding pairwise_symmetry_def by blast
  next
    assume "\<exists>c\<in>set (courses R). courseCode c = k \<and> studentID s \<in> set (enrolledStudentIDs c)"
    with r s show "k \<in> set (enrolledCourses s)" unfolding pairwise_symmetry_def by blast
  qed
  have b: "i \<in> set (enrolledStudentIDs c) \<longleftrightarrow>
        (\<exists>s\<in>set (students R). studentID s = i \<and> courseCode c \<in> set (enrolledCourses s))"
    if c: "c \<in> set (courses R)" for c i
  proof
    assume i: "i \<in> set (enrolledStudentIDs c)"
    with n c obtain s where "s \<in> set (students R)" "studentID s = i"
      unfolding no_dangling_def by blast
    with r c i show "\<exists>s\<in>set (students R). studentID s = i \<and> courseCode c \<in> set (enrolledCourses s)"
      unfolding pairwise_symmetry_def by blast
  next
    assume "\<exists>s\<in>set (students R). studentID s = i \<and> courseCode c \<in> set (enrolledCourses s)"
    with r c show "i \<in> set (enrolledStudentIDs c)" unfolding pairwise_symmetry_def by blast
  qed
  show ?thesis unfolding referential_symmetry_def using a b by blast
qed

section \<open>Referential symmetry of the reachable registries\<close>

text \<open>
  Claim C1. In every registry reached from the empty one by a sequence of the mutating
  operations (\<open>enrollStudentInCourse\<close>, \<open>removeStudentFromCourse\<close>, \<open>removeStudent\<close>,
  \<open>removeCourse\<close>, and \<open>addStudent\<close> and \<open>addCourse\<close>, without which the registry stays
  empty), a code is in a student's \<open>enrolledCourses\<close> iff the student's id is in
  \<open>enrolledStudentIDs\<close> of the course of that code.
\<close>

theorem referential_symmetry_invariant:
  "referential_symmetry (run cmds empty_registry)"
  by (rule consistent_symmetry) (rule consistent_run)

theorem referential_symmetry_invariant_witness:
  "referential_symmetry
     (run [AddStudent ''Alice Johnson'' ''S001'' ''Undergraduate'',
           AddStudent ''Bob Smith'' ''S002'' ''Postgraduate'',
           AddCourse ''Data Structures'' ''CSE102'',
           Enroll ''S001'' ''CSE102'', Enroll ''S002'' ''CSE102'',
           RemoveStudent ''S002''] empty_registry) \<and>
   run [AddStudent ''Alice Johnson'' ''S001'' ''Undergraduate'',
        AddStudent ''Bob Smith'' ''S002'' ''Postgraduate'',
        AddCourse ''Data Structures'' ''CSE102'',
        Enroll ''S001'' ''CSE102'', Enroll ''S002'' ''CSE102'',
        RemoveStudent ''S002''] empty_registry =
     \<lparr>students = [\<lparr>name = ''Alice Johnson'', studentID = ''S001'',
                   enrolledCourses = [''CSE102''], kind = Undergraduate\<rparr>],
      courses = [\<lparr>courseName = ''Data Structures'', courseCode = ''CSE102'',
                  enrolledStudentIDs = [''S001'']\<rparr>]\<rparr>"
proof -
  have "run [AddStudent ''Alice Johnson'' ''S001'' ''Undergraduate'',
        AddStudent ''Bob Smith'' ''S002'' ''Postgraduate'',
        AddCourse ''Data Structures'' ''CSE102'',
        Enroll ''S001'' ''CSE102'', Enroll ''S002'' ''CSE102'',
        RemoveStudent ''S002''] empty_registry =
     \<lparr>students = [\<lparr>name = ''Alice Johnson'', studentID = ''S001'',
                   enrolledCourses = [''CSE102''], kind = Undergraduate\<rparr>],
      courses = [\<lparr>courseName = ''Data Structures'', courseCode = ''CSE102'',
                  enrolledStudentIDs = [''S001'']\<rparr>]\<rparr>"
    by code_simp
  with referential_symmetry_invariant
    [of "[AddStudent ''Alice Johnson'' ''S001'' ''Undergraduate'',
           AddStudent ''Bob Smith'' ''S002'' ''Postgraduate'',
           AddCourse ''Data Structures'' ''CSE102'',
           Enroll ''S001'' ''CSE102'', Enroll ''S002'' ''CSE102'',
           RemoveStudent ''S002'']"]
  show ?thesis by (simp only: simp_thms)
qed

section \<open>Adding a student\<close>

text \<open>
  Claim C3. \<open>addStudent\<close> with an id that the collection already holds reports the duplicate
  and returns the registry as it was: no record is added and none is changed. The registry
  is arbitrary, so this holds at every point of every sequence of calls.
\<close>

theorem addStudent_duplicate_rejected:
  "sid \<in> studentID ` set (students R) \<Longrightarrow> addStudent nm sid ty R = (DuplicateKey, R)"
  by (simp add: addStudent_def findStudentIndex_None)

theorem addStudent_duplicate_rejected_witness:
  "''S001'' \<in> studentID ` set (students (run [AddStudent ''Alice Johnson'' ''S001'' ''Undergraduate''] empty_registry)) \<and>
   addStudent ''Alice Cooper'' ''S001'' ''Postgraduate''
     (run [AddStudent ''Alice Johnson'' ''S001'' ''Undergraduate''] empty_registry) =
   (DuplicateKey, \<lparr>students = [\<lparr>name = ''Alice Johnson'', studentID = ''S001'',
                   enrolledCourses = [], kind = Undergraduate\<rparr>], courses = []\<rparr>)"
proof -
  have r: "run [AddStudent ''Alice Johnson'' ''S001'' ''Undergraduate''] empty_registry =
     \<lparr>students = [\<lparr>name = ''Alice Johnson'', studentID = ''S001'',
                   enrolledCourses = [], kind = Undergraduate\<rparr>], courses = []\<rparr>"
    by code_simp
  have m: "''S001'' \<in> studentID ` set (students (run [AddStudent ''Alice Johnson'' ''S001'' ''Undergraduate''] empty_registry))"
    by (simp add: r)
  from addStudent_duplicate_rejected[OF m, of "''Alice Cooper''" "''Postgraduate''"] m
  show ?thesis by (simp add: r)
qed

text \<open>
  Claim C9. \<open>addStudent\<close> with a type that is neither \<open>Undergraduate\<close> nor \<open>Postgraduate\<close>
  reports the duplicate when the id is present, since that check comes first, and the
  unknown type otherwise; either way the registry is returned as it was.
\<close>

theorem addStudent_error_precedence:
  "ty \<noteq> ''Undergraduate'' \<Longrightarrow> ty \<noteq> ''Postgraduate'' \<Longrightarrow>
   addStudent nm sid ty R =
     (if sid \<in> studentID ` set (students R) then DuplicateKey else InvalidArgument, R)"
  by (simp add: addStudent_def findStudentIndex_None)

theorem addStudent_error_precedence_witness:
  "addStudent ''Alice Cooper'' ''S001'' ''Doctoral''
     \<lparr>students = [\<lparr>name = ''Alice Johnson'', studentID = ''S001'',
                   enrolledCourses = [], kind = Undergraduate\<rparr>], courses = []\<rparr> =
   (DuplicateKey, \<lparr>students = [\<lparr>name = ''Alice Johnson'', studentID = ''S001'',
                   enrolledCourses = [], kind = Undergraduate\<rparr>], courses = []\<rparr>) \<and>
   addStudent ''Bob Smith'' ''S002'' ''Doctoral''
     \<lparr>students = [\<lparr>name = ''Alice Johnson'', studentID = ''S001'',
                   enrolledCourses = [], kind = Undergraduate\<rparr>], courses = []\<rparr> =
   (InvalidArgument, \<lparr>students = [\<lparr>name = ''Alice Johnson'', studentID = ''S001'',
                   enrolledCourses = [], kind = Undergraduate\<rparr>], courses = []\<rparr>)"
  using addStudent_error_precedence[of "''Doctoral''" "''Alice Cooper''" "''S001''"
      "\<lparr>students = [\<lparr>name = ''Alice Johnson'', studentID = ''S001'',
                   enrolledCourses = [], kind = Undergraduate\<rparr>], courses = []\<rparr>"]
    addStudent_error_precedence[of "''Doctoral''" "''Bob Smith''" "''S002''"
      "\<lparr>students = [\<lparr>name = ''Alice Johnson'', studentID = ''S001'',
                   enrolledCourses = [], kind = Undergraduate\<rparr>], courses = []\<rparr>"]
  by simp

section \<open>Deleting and enrolling\<close>

lemma dummy_registry_value:
  "dummy_registry =
    \<lparr>students =
       [\<lparr>name = ''Alice Johnson'', studentID = ''S001'',
          enrolledCourses = [''CSE101'', ''CSE102''], kind = Undergraduate\<rparr>,
        \<lparr>name = ''Bob Smith'', studentID = ''S002'',
          enrolledCourses = [''CSE101''], kind = Postgraduate\<rparr>,
        \<lparr>name = ''Charlie Brown'', studentID = ''S003'',
          enrolledCourses = [''CSE103''], kind = Undergraduate\<rparr>,
        \<lparr>name = ''David Williams'', studentID = ''S004'',
          enrolledCourses = [''CSE104''], kind = Undergraduate\<rparr>,
        \<lparr>name = ''Eve Davis'', studentID = ''S005'',
          enrolledCourses = [''CSE101'', ''CSE102'', ''CSE104''], kind = Postgraduate\<rparr>],
     courses =
       [\<lparr>courseName = ''Introduction to Programming'', courseCode = ''CSE101'',
          enrolledStudentIDs = [''S001'', ''S002'', ''S005'']\<rparr>,
        \<lparr>courseName = ''Data Structures'', courseCode = ''CSE102'',
          enrolledStudentIDs = [''S001'', ''S005'']\<rparr>,
        \<lparr>courseName = ''Algorithms'', courseCode = ''CSE103'',
          enrolledStudentIDs = [''S003'']\<rparr>,
        \<lparr>courseName = ''Operating Systems'', courseCode = ''CSE104'',
          enrolledStudentIDs = [''S004'', ''S005'']\<rparr>]\<rparr>"
  by code_simp


lemma erase_at_drops_key:
  assumes "distinct (map key xs)" "j < length xs"
  shows "key (xs ! j) \<notin> key ` set (erase_at j xs)"
  using erase_at_key[OF assms refl] by auto


text \<open>
  Claim C4. Removing a student that is present deletes the student's id from the roster
  of every course, changes nothing else of any course, and leaves no roster that contains
  the id; removing a course that is present deletes its code from the transcript of every
  student, changes nothing else of any student, and leaves no transcript that contains the
  code. The removed record is the one at the index found; with unique keys no record of that
  key remains.
\<close>

theorem cascade_on_delete:
  "(findStudentIndex R sid = Some idx \<longrightarrow>
      fst (removeStudent sid R) = Success \<and>
      students (snd (removeStudent sid R)) = erase_at idx (students R) \<and>
      map courseCode (courses (snd (removeStudent sid R))) = map courseCode (courses R) \<and>
      map courseName (courses (snd (removeStudent sid R))) = map courseName (courses R) \<and>
      map enrolledStudentIDs (courses (snd (removeStudent sid R))) =
        map (\<lambda>c. removeAll sid (enrolledStudentIDs c)) (courses R) \<and>
      (\<forall>c\<in>set (courses (snd (removeStudent sid R))). sid \<notin> set (enrolledStudentIDs c)) \<and>
      (unique_keys R \<longrightarrow> sid \<notin> studentID ` set (students (snd (removeStudent sid R))))) \<and>
   (findCourseIndex R code = Some cidx \<longrightarrow>
      fst (removeCourse code R) = Success \<and>
      courses (snd (removeCourse code R)) = erase_at cidx (courses R) \<and>
      map studentID (students (snd (removeCourse code R))) = map studentID (students R) \<and>
      map name (students (snd (removeCourse code R))) = map name (students R) \<and>
      map kind (students (snd (removeCourse code R))) = map kind (students R) \<and>
      map enrolledCourses (students (snd (removeCourse code R))) =
        map (\<lambda>s. removeAll code (enrolledCourses s)) (students R) \<and>
      (\<forall>s\<in>set (students (snd (removeCourse code R))). code \<notin> set (enrolledCourses s)) \<and>
      (unique_keys R \<longrightarrow> code \<notin> courseCode ` set (courses (snd (removeCourse code R)))))"
proof (intro conjI impI)
  assume i: "findStudentIndex R sid = Some idx"
  then have eq: "removeStudent sid R =
    (Success, R\<lparr>courses := map (Course_removeStudent sid) (courses R),
                 students := erase_at idx (students R)\<rparr>)"
    by (simp add: removeStudent_def)
  show "fst (removeStudent sid R) = Success" by (simp add: eq)
  show "students (snd (removeStudent sid R)) = erase_at idx (students R)" by (simp add: eq)
  show "map courseCode (courses (snd (removeStudent sid R))) = map courseCode (courses R)"
    by (simp add: eq Course_removeStudent_def)
  show "map courseName (courses (snd (removeStudent sid R))) = map courseName (courses R)"
    by (simp add: eq Course_removeStudent_def)
  show "map enrolledStudentIDs (courses (snd (removeStudent sid R))) =
        map (\<lambda>c. removeAll sid (enrolledStudentIDs c)) (courses R)"
    by (simp add: eq Course_removeStudent_def)
  show "\<forall>c\<in>set (courses (snd (removeStudent sid R))). sid \<notin> set (enrolledStudentIDs c)"
    by (simp add: eq Course_removeStudent_def)
  assume u: "unique_keys R"
  from erase_at_drops_key[of studentID "students R" idx] u findStudentIndex_Some[OF i]
  show "sid \<notin> studentID ` set (students (snd (removeStudent sid R)))"
    by (simp add: eq unique_keys_def)
next
  assume j: "findCourseIndex R code = Some cidx"
  then have eq: "removeCourse code R =
    (Success, R\<lparr>students := map (Student_removeCourse code) (students R),
                 courses := erase_at cidx (courses R)\<rparr>)"
    by (simp add: removeCourse_def)
  show "fst (removeCourse code R) = Success" by (simp add: eq)
  show "courses (snd (removeCourse code R)) = erase_at cidx (courses R)" by (simp add: eq)
  show "map studentID (students (snd (removeCourse code R))) = map studentID (students R)"
    by (simp add: eq Student_removeCourse_def)
  show "map name (students (snd (removeCourse code R))) = map name (students R)"
    by (simp add: eq Student_removeCourse_def)
  show "map kind (students (snd (removeCourse code R))) = map kind (students R)"
    by (simp add: eq Student_removeCourse_def)
  show "map enrolledCourses (students (snd (removeCourse code R))) =
        map (\<lambda>s. removeAll code (enrolledCourses s)) (students R)"
    by (simp add: eq Student_removeCourse_def)
  show "\<forall>s\<in>set (students (snd (removeCourse code R))). code \<notin> set (enrolledCourses s)"
    by (simp add: eq Student_removeCourse_def)
  assume u: "unique_keys R"
  from erase_at_drops_key[of courseCode "courses R" cidx] u findCourseIndex_Some[OF j]
  show "code \<notin> courseCode ` set (courses (snd (removeCourse code R)))"
    by (simp add: eq unique_keys_def)
qed


theorem cascade_on_delete_witness:
  "findStudentIndex dummy_registry ''S005'' = Some 4 \<and>
   findCourseIndex dummy_registry ''CSE101'' = Some 0 \<and>
   unique_keys dummy_registry \<and>
   fst (removeStudent ''S005'' dummy_registry) = Success \<and>
   map enrolledStudentIDs (courses (snd (removeStudent ''S005'' dummy_registry))) =
     [[''S001'', ''S002''], [''S001''], [''S003''], [''S004'']] \<and>
   ''S005'' \<notin> studentID ` set (students (snd (removeStudent ''S005'' dummy_registry))) \<and>
   fst (removeCourse ''CSE101'' dummy_registry) = Success \<and>
   map enrolledCourses (students (snd (removeCourse ''CSE101'' dummy_registry))) =
     [[''CSE102''], [], [''CSE103''], [''CSE104''], [''CSE102'', ''CSE104'']] \<and>
   ''CSE101'' \<notin> courseCode ` set (courses (snd (removeCourse ''CSE101'' dummy_registry)))"
proof -
  have a: "findStudentIndex dummy_registry ''S005'' = Some 4"
    by (simp add: dummy_registry_value findStudentIndex_def)
  have b: "findCourseIndex dummy_registry ''CSE101'' = Some 0"
    by (simp add: dummy_registry_value findCourseIndex_def)
  have u: "unique_keys dummy_registry" by (simp add: dummy_registry_value unique_keys_def)
  have m1: "map (\<lambda>c. removeAll ''S005'' (enrolledStudentIDs c)) (courses dummy_registry) =
      [[''S001'', ''S002''], [''S001''], [''S003''], [''S004'']]"
    by (simp add: dummy_registry_value)
  have m2: "map (\<lambda>s. removeAll ''CSE101'' (enrolledCourses s)) (students dummy_registry) =
      [[''CSE102''], [], [''CSE103''], [''CSE104''], [''CSE102'', ''CSE104'']]"
    by (simp add: dummy_registry_value)
  note t = cascade_on_delete[of dummy_registry "''S005''" 4 "''CSE101''" 0]
  have t1: "fst (removeStudent ''S005'' dummy_registry) = Success"
    using t a by blast
  have t2: "map enrolledStudentIDs (courses (snd (removeStudent ''S005'' dummy_registry))) =
      map (\<lambda>c. removeAll ''S005'' (enrolledStudentIDs c)) (courses dummy_registry)"
    using t a by blast
  have t3: "''S005'' \<notin> studentID ` set (students (snd (removeStudent ''S005'' dummy_registry)))"
    using t a u by blast
  have t4: "fst (removeCourse ''CSE101'' dummy_registry) = Success"
    using t b by blast
  have t5: "map enrolledCourses (students (snd (removeCourse ''CSE101'' dummy_registry))) =
      map (\<lambda>s. removeAll ''CSE101'' (enrolledCourses s)) (students dummy_registry)"
    using t b by blast
  have t6: "''CSE101'' \<notin> courseCode ` set (courses (snd (removeCourse ''CSE101'' dummy_registry)))"
    using t b u by blast
  show ?thesis using a b u t1 t2 t3 t4 t5 t6 by (simp only: m1 m2 simp_thms)
qed

lemma find_index_from_cong:
  "map P xs = map P ys \<Longrightarrow> find_index_from P xs n = find_index_from P ys n"
proof (induction xs arbitrary: ys n)
  case Nil
  then show ?case by simp
next
  case (Cons x xs)
  then obtain y ys' where ys: "ys = y # ys'" by (cases ys) auto
  with Cons.prems have "P x = P y" "map P xs = map P ys'" by auto
  with Cons.IH[of ys' "Suc n"] ys show ?case by simp
qed

lemma find_index_from_update:
  assumes "i < length xs" "P y = P (xs ! i)"
  shows "find_index_from P (xs[i := y]) n = find_index_from P xs n"
proof (rule find_index_from_cong)
  have "map P (xs[i := y]) = (map P xs)[i := P y]" by (simp add: map_update)
  also have "\<dots> = map P xs" using assms by (simp add: list_update_same_conv)
  finally show "map P (xs[i := y]) = map P xs" .
qed

lemma enroll_links:
  assumes i: "findStudentIndex R sid = Some i" and j: "findCourseIndex R code = Some j"
  shows "findStudentIndex (snd (enrollStudentInCourse sid code R)) sid = Some i"
    and "findCourseIndex (snd (enrollStudentInCourse sid code R)) code = Some j"
    and "code \<in> set (enrolledCourses (students (snd (enrollStudentInCourse sid code R)) ! i))"
proof -
  note si = findStudentIndex_Some[OF i] and cj = findCourseIndex_Some[OF j]
  show "findStudentIndex (snd (enrollStudentInCourse sid code R)) sid = Some i"
    using i j si by (simp add: enrollStudentInCourse_def findStudentIndex_def find_index_from_update)
  show "findCourseIndex (snd (enrollStudentInCourse sid code R)) code = Some j"
    using i j cj by (simp add: enrollStudentInCourse_def findCourseIndex_def find_index_from_update)
  show "code \<in> set (enrolledCourses (students (snd (enrollStudentInCourse sid code R)) ! i))"
    using i j si by (simp add: enrollStudentInCourse_def)
qed

lemma count_list_distinct: "distinct xs \<Longrightarrow> x \<in> set xs \<Longrightarrow> count_list xs x = 1"
  by (induction xs) (auto simp: count_list_0_iff)

lemma enroll_twice:
  assumes c: "consistent R" and i: "findStudentIndex R sid = Some i"
    and j: "findCourseIndex R code = Some j"
  shows "enrollStudentInCourse sid code (snd (enrollStudentInCourse sid code R)) =
           (AlreadyEnrolled, snd (enrollStudentInCourse sid code R))"
    and "\<forall>c\<in>set (courses (snd (enrollStudentInCourse sid code R))).
           courseCode c = code \<longrightarrow> count_list (enrolledStudentIDs c) sid = 1"
proof -
  define R1 where "R1 = snd (enrollStudentInCourse sid code R)"
  note l = enroll_links[OF i j, folded R1_def]
  have c1: "consistent R1" unfolding R1_def by (rule consistent_enroll[OF c])
  show "enrollStudentInCourse sid code R1 = (AlreadyEnrolled, R1)"
    using l by (simp add: enrollStudentInCourse_def)
  have s: "students R1 ! i \<in> set (students R1)" "studentID (students R1 ! i) = sid"
    using findStudentIndex_Some[OF l(1)] by auto
  from consistent_symmetry[OF c1] s(1) l(3)
  obtain c' where c': "c' \<in> set (courses R1)" "courseCode c' = code"
      "studentID (students R1 ! i) \<in> set (enrolledStudentIDs c')"
    unfolding referential_symmetry_def by blast
  show "\<forall>c\<in>set (courses R1). courseCode c = code \<longrightarrow> count_list (enrolledStudentIDs c) sid = 1"
  proof (intro ballI impI)
    fix c assume cc: "c \<in> set (courses R1)" "courseCode c = code"
    from c1 have "distinct (map courseCode (courses R1))" by (simp add: consistent_def unique_keys_def)
    with cc c' have "c = c'" by (auto simp: distinct_map inj_on_def)
    moreover from c1 cc have "distinct (enrolledStudentIDs c)"
      by (simp add: consistent_def duplicate_free_def)
    ultimately show "count_list (enrolledStudentIDs c) sid = 1"
      using c'(3) s(2) by (simp add: count_list_distinct)
  qed
qed


text \<open>
  Claim C5, as amended. \<open>enrollStudentInCourse\<close> reports \<open>NotFound\<close> when the student or
  the course is absent and \<open>AlreadyEnrolled\<close> when the student's transcript holds the code,
  in both cases returning the registry as it was; otherwise it appends the code to the
  transcript and adds the id to the roster. A second call for the same pair, both keys
  present, reports \<open>AlreadyEnrolled\<close> and changes nothing. Afterwards the roster of the
  course holds the id exactly once, provided that before the first call the roster was
  duplicate-free and held the id whenever the transcript held the code; this is so in
  every registry reached by the operations from the empty one.
\<close>

theorem enroll_semantics:
  "(sid \<notin> studentID ` set (students R) \<or> code \<notin> courseCode ` set (courses R) \<longrightarrow>
      enrollStudentInCourse sid code R = (NotFound, R)) \<and>
   (findStudentIndex R sid = Some i \<and> findCourseIndex R code = Some j \<and>
    code \<in> set (enrolledCourses (students R ! i)) \<longrightarrow>
      enrollStudentInCourse sid code R = (AlreadyEnrolled, R)) \<and>
   (findStudentIndex R sid = Some i \<and> findCourseIndex R code = Some j \<and>
    code \<notin> set (enrolledCourses (students R ! i)) \<longrightarrow>
      fst (enrollStudentInCourse sid code R) = Success \<and>
      students (snd (enrollStudentInCourse sid code R)) =
        (students R)[i := (students R ! i)\<lparr>enrolledCourses := enrolledCourses (students R ! i) @ [code]\<rparr>] \<and>
      courses (snd (enrollStudentInCourse sid code R)) =
        (courses R)[j := (courses R ! j)\<lparr>enrolledStudentIDs :=
           (if sid \<in> set (enrolledStudentIDs (courses R ! j)) then enrolledStudentIDs (courses R ! j)
            else enrolledStudentIDs (courses R ! j) @ [sid])\<rparr>] \<and>
      code \<in> set (enrolledCourses (students (snd (enrollStudentInCourse sid code R)) ! i)) \<and>
      sid \<in> set (enrolledStudentIDs (courses (snd (enrollStudentInCourse sid code R)) ! j))) \<and>
   (sid \<in> studentID ` set (students R) \<and> code \<in> courseCode ` set (courses R) \<longrightarrow>
      enrollStudentInCourse sid code (snd (enrollStudentInCourse sid code R)) =
        (AlreadyEnrolled, snd (enrollStudentInCourse sid code R))) \<and>
   (findStudentIndex R sid = Some i \<and> findCourseIndex R code = Some j \<and>
    distinct (enrolledStudentIDs (courses R ! j)) \<and>
    (code \<in> set (enrolledCourses (students R ! i)) \<longrightarrow>
       sid \<in> set (enrolledStudentIDs (courses R ! j))) \<longrightarrow>
      count_list (enrolledStudentIDs (courses (snd (enrollStudentInCourse sid code R)) ! j)) sid = 1) \<and>
   (sid \<in> studentID ` set (students (run cmds empty_registry)) \<and>
    code \<in> courseCode ` set (courses (run cmds empty_registry)) \<longrightarrow>
      (\<forall>c\<in>set (courses (snd (enrollStudentInCourse sid code (run cmds empty_registry)))).
         courseCode c = code \<longrightarrow> count_list (enrolledStudentIDs c) sid = 1))"
proof (intro conjI impI)
  assume "sid \<notin> studentID ` set (students R) \<or> code \<notin> courseCode ` set (courses R)"
  then have "findStudentIndex R sid = None \<or> findCourseIndex R code = None"
    by (simp add: findStudentIndex_None findCourseIndex_None)
  then show "enrollStudentInCourse sid code R = (NotFound, R)"
    by (auto simp: enrollStudentInCourse_def split: option.splits)
next
  assume "findStudentIndex R sid = Some i \<and> findCourseIndex R code = Some j \<and>
    code \<in> set (enrolledCourses (students R ! i))"
  then show "enrollStudentInCourse sid code R = (AlreadyEnrolled, R)"
    by (simp add: enrollStudentInCourse_def)
next
  assume a: "findStudentIndex R sid = Some i \<and> findCourseIndex R code = Some j \<and>
    code \<notin> set (enrolledCourses (students R ! i))"
  then have i: "findStudentIndex R sid = Some i" and j: "findCourseIndex R code = Some j" by auto
  note si = findStudentIndex_Some[OF i] and cj = findCourseIndex_Some[OF j]
  show "fst (enrollStudentInCourse sid code R) = Success"
    using a by (simp add: enrollStudentInCourse_def)
  show "students (snd (enrollStudentInCourse sid code R)) =
        (students R)[i := (students R ! i)\<lparr>enrolledCourses := enrolledCourses (students R ! i) @ [code]\<rparr>]"
    using a by (simp add: enrollStudentInCourse_def Student_addCourse_def)
  show "courses (snd (enrollStudentInCourse sid code R)) =
        (courses R)[j := (courses R ! j)\<lparr>enrolledStudentIDs :=
           (if sid \<in> set (enrolledStudentIDs (courses R ! j)) then enrolledStudentIDs (courses R ! j)
            else enrolledStudentIDs (courses R ! j) @ [sid])\<rparr>]"
    using a by (simp add: enrollStudentInCourse_def Course_addStudent_def)
  show "code \<in> set (enrolledCourses (students (snd (enrollStudentInCourse sid code R)) ! i))"
    by (rule enroll_links(3)[OF i j])
  show "sid \<in> set (enrolledStudentIDs (courses (snd (enrollStudentInCourse sid code R)) ! j))"
    using a cj by (simp add: enrollStudentInCourse_def)
next
  assume "sid \<in> studentID ` set (students R) \<and> code \<in> courseCode ` set (courses R)"
  then obtain i' j' where i: "findStudentIndex R sid = Some i'"
    and j: "findCourseIndex R code = Some j'"
    using findStudentIndex_None[of R sid] findCourseIndex_None[of R code] by auto
  from enroll_links[OF i j]
  show "enrollStudentInCourse sid code (snd (enrollStudentInCourse sid code R)) =
        (AlreadyEnrolled, snd (enrollStudentInCourse sid code R))"
    by (simp add: enrollStudentInCourse_def)
next
  assume a: "findStudentIndex R sid = Some i \<and> findCourseIndex R code = Some j \<and>
    distinct (enrolledStudentIDs (courses R ! j)) \<and>
    (code \<in> set (enrolledCourses (students R ! i)) \<longrightarrow>
       sid \<in> set (enrolledStudentIDs (courses R ! j)))"
  then have i: "findStudentIndex R sid = Some i" and j: "findCourseIndex R code = Some j"
    and d: "distinct (enrolledStudentIDs (courses R ! j))" by auto
  note cj = findCourseIndex_Some[OF j]
  show "count_list (enrolledStudentIDs (courses (snd (enrollStudentInCourse sid code R)) ! j)) sid = 1"
  proof (cases "code \<in> set (enrolledCourses (students R ! i))")
    case True
    with a have "sid \<in> set (enrolledStudentIDs (courses R ! j))" by blast
    with d True i j show ?thesis
      by (simp add: enrollStudentInCourse_def count_list_distinct)
  next
    case False
    have "distinct (enrolledStudentIDs (Course_addStudent sid (courses R ! j)))"
      "sid \<in> set (enrolledStudentIDs (Course_addStudent sid (courses R ! j)))"
      using d by simp_all
    then have "count_list (enrolledStudentIDs (Course_addStudent sid (courses R ! j))) sid = 1"
      by (rule count_list_distinct)
    with False i j cj(1) show ?thesis
      by (simp add: enrollStudentInCourse_def)
  qed
next
  assume a: "sid \<in> studentID ` set (students (run cmds empty_registry)) \<and>
    code \<in> courseCode ` set (courses (run cmds empty_registry))"
  then obtain i' j' where i: "findStudentIndex (run cmds empty_registry) sid = Some i'"
    and j: "findCourseIndex (run cmds empty_registry) code = Some j'"
    using findStudentIndex_None[of "run cmds empty_registry" sid]
      findCourseIndex_None[of "run cmds empty_registry" code] by auto
  note t = enroll_twice[OF consistent_run i j]
  show "\<forall>c\<in>set (courses (snd (enrollStudentInCourse sid code (run cmds empty_registry)))).
         courseCode c = code \<longrightarrow> count_list (enrolledStudentIDs c) sid = 1"
    by (rule t(2))
qed



theorem enroll_semantics_witness:
  "enrollStudentInCourse ''S999'' ''CSE102'' dummy_registry = (NotFound, dummy_registry) \<and>
   enrollStudentInCourse ''S001'' ''CSE102'' dummy_registry = (AlreadyEnrolled, dummy_registry) \<and>
   fst (enrollStudentInCourse ''S002'' ''CSE102'' dummy_registry) = Success \<and>
   map enrolledCourses (students (snd (enrollStudentInCourse ''S002'' ''CSE102'' dummy_registry))) =
     [[''CSE101'', ''CSE102''], [''CSE101'', ''CSE102''], [''CSE103''], [''CSE104''],
      [''CSE101'', ''CSE102'', ''CSE104'']] \<and>
   map enrolledStudentIDs (courses (snd (enrollStudentInCourse ''S002'' ''CSE102'' dummy_registry))) =
     [[''S001'', ''S002'', ''S005''], [''S001'', ''S005'', ''S002''], [''S003''], [''S004'', ''S005'']] \<and>
   enrollStudentInCourse ''S002'' ''CSE102''
       (snd (enrollStudentInCourse ''S002'' ''CSE102'' dummy_registry)) =
     (AlreadyEnrolled, snd (enrollStudentInCourse ''S002'' ''CSE102'' dummy_registry)) \<and>
   count_list (enrolledStudentIDs
       (courses (snd (enrollStudentInCourse ''S002'' ''CSE102'' dummy_registry)) ! 1)) ''S002'' = 1"
proof -
  have n: "''S999'' \<notin> studentID ` set (students dummy_registry)"
    by (simp add: dummy_registry_value)
  have i1: "findStudentIndex dummy_registry ''S001'' = Some 0"
    and i2: "findStudentIndex dummy_registry ''S002'' = Some 1"
    and j: "findCourseIndex dummy_registry ''CSE102'' = Some 1"
    by (simp_all add: dummy_registry_value findStudentIndex_def findCourseIndex_def)
  have m1: "''CSE102'' \<in> set (enrolledCourses (students dummy_registry ! 0))"
    and m2: "''CSE102'' \<notin> set (enrolledCourses (students dummy_registry ! 1))"
    and p: "''S002'' \<in> studentID ` set (students dummy_registry)"
      "''CSE102'' \<in> courseCode ` set (courses dummy_registry)"
    by (simp_all add: dummy_registry_value)
  have r: "dummy_registry = run
         [AddStudent ''Alice Johnson'' ''S001'' ''Undergraduate'',
          AddStudent ''Bob Smith'' ''S002'' ''Postgraduate'',
          AddStudent ''Charlie Brown'' ''S003'' ''Undergraduate'',
          AddStudent ''David Williams'' ''S004'' ''Undergraduate'',
          AddStudent ''Eve Davis'' ''S005'' ''Postgraduate'',
          AddCourse ''Introduction to Programming'' ''CSE101'',
          AddCourse ''Data Structures'' ''CSE102'',
          AddCourse ''Algorithms'' ''CSE103'',
          AddCourse ''Operating Systems'' ''CSE104'',
          Enroll ''S001'' ''CSE101'',
          Enroll ''S001'' ''CSE102'',
          Enroll ''S002'' ''CSE101'',
          Enroll ''S003'' ''CSE103'',
          Enroll ''S004'' ''CSE104'',
          Enroll ''S005'' ''CSE101'',
          Enroll ''S005'' ''CSE102'',
          Enroll ''S005'' ''CSE104''] empty_registry"
    by (simp only: dummy_registry_def populateDummyData_def)
  have t1: "enrollStudentInCourse ''S999'' ''CSE102'' dummy_registry = (NotFound, dummy_registry)"
    using enroll_semantics[where R = dummy_registry and sid = "''S999''" and code = "''CSE102''"] n
    by blast
  have t2: "enrollStudentInCourse ''S001'' ''CSE102'' dummy_registry = (AlreadyEnrolled, dummy_registry)"
    using enroll_semantics[where R = dummy_registry and sid = "''S001''" and code = "''CSE102''"
        and i = 0 and j = 1] i1 j m1
    by blast
  note e = enroll_semantics[where R = dummy_registry and sid = "''S002''" and code = "''CSE102''"
        and i = 1 and j = 1 and cmds = "[AddStudent ''Alice Johnson'' ''S001'' ''Undergraduate'',
          AddStudent ''Bob Smith'' ''S002'' ''Postgraduate'',
          AddStudent ''Charlie Brown'' ''S003'' ''Undergraduate'',
          AddStudent ''David Williams'' ''S004'' ''Undergraduate'',
          AddStudent ''Eve Davis'' ''S005'' ''Postgraduate'',
          AddCourse ''Introduction to Programming'' ''CSE101'',
          AddCourse ''Data Structures'' ''CSE102'',
          AddCourse ''Algorithms'' ''CSE103'',
          AddCourse ''Operating Systems'' ''CSE104'',
          Enroll ''S001'' ''CSE101'',
          Enroll ''S001'' ''CSE102'',
          Enroll ''S002'' ''CSE101'',
          Enroll ''S003'' ''CSE103'',
          Enroll ''S004'' ''CSE104'',
          Enroll ''S005'' ''CSE101'',
          Enroll ''S005'' ''CSE102'',
          Enroll ''S005'' ''CSE104'']", folded r]
  have t3: "fst (enrollStudentInCourse ''S002'' ''CSE102'' dummy_registry) = Success"
    using e i2 j m2 by blast
  have t4: "enrollStudentInCourse ''S002'' ''CSE102''
       (snd (enrollStudentInCourse ''S002'' ''CSE102'' dummy_registry)) =
     (AlreadyEnrolled, snd (enrollStudentInCourse ''S002'' ''CSE102'' dummy_registry))"
    using e p by blast
  have t5: "\<forall>c\<in>set (courses (snd (enrollStudentInCourse ''S002'' ''CSE102'' dummy_registry))).
         courseCode c = ''CSE102'' \<longrightarrow> count_list (enrolledStudentIDs c) ''S002'' = 1"
    using e p by blast
  have v: "snd (enrollStudentInCourse ''S002'' ''CSE102'' dummy_registry) =
    \<lparr>students =
       [\<lparr>name = ''Alice Johnson'', studentID = ''S001'',
          enrolledCourses = [''CSE101'', ''CSE102''], kind = Undergraduate\<rparr>,
        \<lparr>name = ''Bob Smith'', studentID = ''S002'',
          enrolledCourses = [''CSE101'', ''CSE102''], kind = Postgraduate\<rparr>,
        \<lparr>name = ''Charlie Brown'', studentID = ''S003'',
          enrolledCourses = [''CSE103''], kind = Undergraduate\<rparr>,
        \<lparr>name = ''David Williams'', studentID = ''S004'',
          enrolledCourses = [''CSE104''], kind = Undergraduate\<rparr>,
        \<lparr>name = ''Eve Davis'', studentID = ''S005'',
          enrolledCourses = [''CSE101'', ''CSE102'', ''CSE104''], kind = Postgraduate\<rparr>],
     courses =
       [\<lparr>courseName = ''Introduction to Programming'', courseCode = ''CSE101'',
          enrolledStudentIDs = [''S001'', ''S002'', ''S005'']\<rparr>,
        \<lparr>courseName = ''Data Structures'', courseCode = ''CSE102'',
          enrolledStudentIDs = [''S001'', ''S005'', ''S002'']\<rparr>,
        \<lparr>courseName = ''Algorithms'', courseCode = ''CSE103'',
          enrolledStudentIDs = [''S003'']\<rparr>,
        \<lparr>courseName = ''Operating Systems'', courseCode = ''CSE104'',
          enrolledStudentIDs = [''S004'', ''S005'']\<rparr>]\<rparr>"
    by (simp add: dummy_registry_value enrollStudentInCourse_def findStudentIndex_def
        findCourseIndex_def Student_addCourse_def Course_addStudent_def)
  have t6: "count_list (enrolledStudentIDs
       (courses (snd (enrollStudentInCourse ''S002'' ''CSE102'' dummy_registry)) ! 1)) ''S002'' = 1"
    using t5 by (simp add: v)
  have t7: "map enrolledCourses (students (snd (enrollStudentInCourse ''S002'' ''CSE102'' dummy_registry))) =
     [[''CSE101'', ''CSE102''], [''CSE101'', ''CSE102''], [''CSE103''], [''CSE104''],
      [''CSE101'', ''CSE102'', ''CSE104'']]"
    and t8: "map enrolledStudentIDs (courses (snd (enrollStudentInCourse ''S002'' ''CSE102'' dummy_registry))) =
     [[''S001'', ''S002'', ''S005''], [''S001'', ''S005'', ''S002''], [''S003''], [''S004'', ''S005'']]"
    by (simp_all add: v)
  show ?thesis using t1 t2 t3 t4 t6 t7 t8 by (simp only: simp_thms)
qed

text \<open>
  The claim as stated, for every registry, fails on the registry that \<open>main\<close> loads after a
  restart: the transcript holds the code, so both calls report \<open>AlreadyEnrolled\<close>, while
  the roster read back holds the one entry \<open>'' Advanced,S001''\<close> and the id no time.
\<close>

theorem enroll_twice_counterexample:
  "restarted_registry =
     \<lparr>students = [\<lparr>name = ''Alice Johnson'', studentID = ''S001'',
                   enrolledCourses = [''CSE103''], kind = Undergraduate\<rparr>],
      courses = [\<lparr>courseName = ''Algorithms'', courseCode = ''CSE103'',
                  enrolledStudentIDs = ['' Advanced,S001'']\<rparr>]\<rparr> \<and>
   enrollStudentInCourse ''S001'' ''CSE103'' restarted_registry =
     (AlreadyEnrolled, restarted_registry) \<and>
   enrollStudentInCourse ''S001'' ''CSE103''
       (snd (enrollStudentInCourse ''S001'' ''CSE103'' restarted_registry)) =
     (AlreadyEnrolled, restarted_registry) \<and>
   count_list (enrolledStudentIDs
       (courses (snd (enrollStudentInCourse ''S001'' ''CSE103''
          (snd (enrollStudentInCourse ''S001'' ''CSE103'' restarted_registry)))) ! 0)) ''S001'' = 0"
  by code_simp


section \<open>Search and course report\<close>

lemma starts_with_iff: "starts_with kw s \<longleftrightarrow> (\<exists>post. s = kw @ post)"
  by (induction kw s rule: starts_with.induct) auto

lemma is_substring_Nil: "is_substring kw [] \<longleftrightarrow> kw = []"
  by (auto simp: is_substring_def)

lemma is_substring_Cons:
  "is_substring kw (c # cs) \<longleftrightarrow> starts_with kw (c # cs) \<or> is_substring kw cs"
proof
  assume "is_substring kw (c # cs)"
  then obtain pre post where e: "c # cs = pre @ kw @ post" by (auto simp: is_substring_def)
  show "starts_with kw (c # cs) \<or> is_substring kw cs"
  proof (cases pre)
    case Nil
    with e show ?thesis by (auto simp: starts_with_iff)
  next
    case (Cons p pre')
    with e have "cs = pre' @ kw @ post" by simp
    then show ?thesis by (auto simp: is_substring_def)
  qed
next
  assume "starts_with kw (c # cs) \<or> is_substring kw cs"
  then show "is_substring kw (c # cs)"
  proof
    assume "starts_with kw (c # cs)"
    then obtain post where "c # cs = [] @ kw @ post" by (auto simp: starts_with_iff)
    then show ?thesis unfolding is_substring_def by blast
  next
    assume "is_substring kw cs"
    then obtain pre post where "cs = pre @ kw @ post" by (auto simp: is_substring_def)
    then have "c # cs = (c # pre) @ kw @ post" by simp
    then show ?thesis unfolding is_substring_def by blast
  qed
qed

lemma str_find_from_iff: "str_find_from kw s i \<noteq> None \<longleftrightarrow> is_substring kw s"
  by (induction s arbitrary: i) (simp_all add: is_substring_Nil is_substring_Cons del: not_None_eq)

lemma str_find_iff: "str_find s kw \<noteq> None \<longleftrightarrow> is_substring kw s"
  by (simp add: str_find_def str_find_from_iff del: not_None_eq)

lemma search_courses_iff: "search_courses kw cs \<longleftrightarrow> (\<exists>c\<in>set cs. is_substring kw c)"
  by (induction cs) (simp_all add: str_find_iff del: not_None_eq)

lemma search_loop_filter:
  "search_loop kw ss (out, found) =
     (out @ map display_line (filter (matches kw) ss), found \<or> filter (matches kw) ss \<noteq> [])"
proof (induction ss arbitrary: out found)
  case Nil
  then show ?case by simp
next
  case (Cons s ss)
  have m: "matches kw s \<longleftrightarrow>
      (str_find (name s) kw \<noteq> None \<or> str_find (studentID s) kw \<noteq> None) \<or>
      search_courses kw (enrolledCourses s)"
    by (simp add: matches_def str_find_iff search_courses_iff del: not_None_eq)
  show ?case
  proof (cases "matches kw s")
    case True
    with m Cons.IH show ?thesis by (simp del: not_None_eq)
  next
    case False
    with m Cons.IH show ?thesis by (simp del: not_None_eq)
  qed
qed

text \<open>
  Claim C7. After the header, \<open>searchStudent\<close> prints one line for each student whose name,
  id or some enrolled course code contains the keyword as a substring, each such student
  once and in the order of the collection; when no student matches it prints no student
  line but the no-match message, and there is no failure branch.
\<close>

theorem searchStudent_matches:
  "searchStudent kw R =
     search_header kw #
       (if filter (matches kw) (students R) = [] then [no_match_message]
        else map display_line (filter (matches kw) (students R)))"
  by (simp add: searchStudent_def search_loop_filter)

theorem searchStudent_matches_witness:
  "searchStudent ''102'' dummy_registry =
     search_header ''102'' # map display_line (filter (matches ''102'') (students dummy_registry)) \<and>
   searchStudent ''102'' dummy_registry =
     [search_header ''102'',
      ''Name: Alice Johnson, ID: S001, Type: Undergraduate'' @ [CHR 0x0A],
      ''Name: Eve Davis, ID: S005, Type: Postgraduate'' @ [CHR 0x0A]] \<and>
   filter (matches ''Zed'') (students dummy_registry) = [] \<and>
   searchStudent ''Zed'' dummy_registry = [search_header ''Zed'', no_match_message]"
proof -
  have v: "searchStudent ''102'' dummy_registry =
     [search_header ''102'',
      ''Name: Alice Johnson, ID: S001, Type: Undergraduate'' @ [CHR 0x0A],
      ''Name: Eve Davis, ID: S005, Type: Postgraduate'' @ [CHR 0x0A]]"
    by (simp add: searchStudent_def dummy_registry_value str_find_def display_line_def)
  have w: "searchStudent ''Zed'' dummy_registry = [search_header ''Zed'', no_match_message]"
    by (simp add: searchStudent_def dummy_registry_value str_find_def display_line_def)
  have a: "searchStudent ''102'' dummy_registry =
     search_header ''102'' # map display_line (filter (matches ''102'') (students dummy_registry))"
    using searchStudent_matches[of "''102''" dummy_registry] v
    by (cases "filter (matches ''102'') (students dummy_registry) = []") simp_all
  have b: "filter (matches ''Zed'') (students dummy_registry) = []"
    using searchStudent_matches[of "''Zed''" dummy_registry] w
    by (cases "filter (matches ''Zed'') (students dummy_registry) = []")
      (auto simp: no_match_message_def display_line_def)
  show ?thesis using a v b w by (simp only: simp_thms)
qed

lemma find_index_from_find:
  "find_index_from P xs n = Some j \<Longrightarrow> find P xs = Some (xs ! (j - n))"
proof (induction xs arbitrary: n)
  case Nil
  then show ?case by simp
next
  case (Cons x xs)
  show ?case
  proof (cases "P x")
    case True
    with Cons.prems show ?thesis by simp
  next
    case False
    with Cons.prems have f: "find_index_from P xs (Suc n) = Some j" by simp
    from find_index_from_Some[OF f] have "j - n = Suc (j - Suc n)" by arith
    with Cons.IH[OF f] False show ?thesis by simp
  qed
qed

lemma find_index_from_find_None:
  "find_index_from P xs n = None \<Longrightarrow> find P xs = None"
  by (simp add: find_index_from_None find_None_iff)

lemma lookup_student_index:
  "lookup_student R sid =
     (case findStudentIndex R sid of None \<Rightarrow> None | Some i \<Rightarrow> Some (students R ! i))"
  unfolding lookup_student_def findStudentIndex_def
  by (auto split: option.splits dest: find_index_from_find find_index_from_find_None)

lemma report_loop_lines:
  "report_loop R ids out =
     out @ concat (map report_line (List.map_filter (lookup_student R) ids))"
  by (induction ids arbitrary: out)
    (simp_all add: List.map_filter_simps lookup_student_index split: option.splits)

text \<open>
  Claim C8. For a code that no course has, \<open>generateReportForCourse\<close> reports \<open>NotFound\<close>
  and leaves the file system as it was, so no report file appears. For a code that is
  present (the course found being the first with that code) and a report path that can be
  opened, the file under the report path afterwards holds the header \<open>StudentID,Name,Type\<close>
  and then, in roster order, one line for each roster id that names a student of the
  registry; every other file is as before. When the path cannot be opened nothing is
  written.
\<close>

theorem course_report:
  "(code \<notin> courseCode ` set (courses R) \<longrightarrow>
      generateReportForCourse code R fs = (NotFound, fs) \<and>
      contents (snd (generateReportForCourse code R fs)) (course_report_path code) =
        contents fs (course_report_path code)) \<and>
   (find (\<lambda>c. courseCode c = code) (courses R) = Some c \<and> course_report_path code \<in> locked fs \<longrightarrow>
      generateReportForCourse code R fs = (IOFailure, fs)) \<and>
   (find (\<lambda>c. courseCode c = code) (courses R) = Some c \<and> course_report_path code \<notin> locked fs \<longrightarrow>
      generateReportForCourse code R fs =
        (Success, write_file (course_report_path code)
           (course_report_header @
            concat (map report_line (List.map_filter (lookup_student R) (enrolledStudentIDs c)))) fs) \<and>
      contents (snd (generateReportForCourse code R fs)) (course_report_path code) =
        Some (course_report_header @
              concat (map report_line (List.map_filter (lookup_student R) (enrolledStudentIDs c)))) \<and>
      (\<forall>path. path \<noteq> course_report_path code \<longrightarrow>
         contents (snd (generateReportForCourse code R fs)) path = contents fs path) \<and>
      locked (snd (generateReportForCourse code R fs)) = locked fs)"
proof (intro conjI impI)
  assume "code \<notin> courseCode ` set (courses R)"
  then show n: "generateReportForCourse code R fs = (NotFound, fs)"
    by (simp add: generateReportForCourse_def findCourseIndex_None[symmetric])
  show "contents (snd (generateReportForCourse code R fs)) (course_report_path code) =
        contents fs (course_report_path code)"
    by (simp add: n)
next
  assume a: "find (\<lambda>c. courseCode c = code) (courses R) = Some c \<and> course_report_path code \<in> locked fs"
  then obtain j where j: "findCourseIndex R code = Some j"
    by (cases "findCourseIndex R code")
      (auto simp: findCourseIndex_def dest: find_index_from_find_None)
  with a show "generateReportForCourse code R fs = (IOFailure, fs)"
    by (simp add: generateReportForCourse_def)
next
  assume a: "find (\<lambda>c. courseCode c = code) (courses R) = Some c \<and> course_report_path code \<notin> locked fs"
  then obtain j where j: "findCourseIndex R code = Some j"
    by (cases "findCourseIndex R code")
      (auto simp: findCourseIndex_def dest: find_index_from_find_None)
  from find_index_from_find[OF j[unfolded findCourseIndex_def]] a have "courses R ! j = c" by simp
  with a j show eq: "generateReportForCourse code R fs =
        (Success, write_file (course_report_path code)
           (course_report_header @
            concat (map report_line (List.map_filter (lookup_student R) (enrolledStudentIDs c)))) fs)"
    by (simp add: generateReportForCourse_def report_loop_lines)
  show "contents (snd (generateReportForCourse code R fs)) (course_report_path code) =
        Some (course_report_header @
              concat (map report_line (List.map_filter (lookup_student R) (enrolledStudentIDs c))))"
    by (simp add: eq write_file_def)
  show "\<forall>path. path \<noteq> course_report_path code \<longrightarrow>
         contents (snd (generateReportForCourse code R fs)) path = contents fs path"
    by (simp add: eq write_file_def)
  show "locked (snd (generateReportForCourse code R fs)) = locked fs"
    by (simp add: eq write_file_def)
qed

theorem course_report_witness:
  "generateReportForCourse ''CSE999'' dummy_registry no_files = (NotFound, no_files) \<and>
   contents (snd (generateReportForCourse ''CSE999'' dummy_registry no_files))
     ''Reports/CourseReports/CSE999.csv'' = None \<and>
   find (\<lambda>c. courseCode c = ''CSE102'') (courses dummy_registry) =
     Some \<lparr>courseName = ''Data Structures'', courseCode = ''CSE102'',
           enrolledStudentIDs = [''S001'', ''S005'']\<rparr> \<and>
   fst (generateReportForCourse ''CSE102'' dummy_registry no_files) = Success \<and>
   contents (snd (generateReportForCourse ''CSE102'' dummy_registry no_files))
     ''Reports/CourseReports/CSE102.csv'' =
     Some (''StudentID,Name,Type'' @ [CHR 0x0A] @
           ''S001,Alice Johnson,Undergraduate'' @ [CHR 0x0A] @
           ''S005,Eve Davis,Postgraduate'' @ [CHR 0x0A]) \<and>
   contents (snd (generateReportForCourse ''CSE102'' dummy_registry no_files))
     ''Students/students.csv'' = None"
proof -
  have n: "''CSE999'' \<notin> courseCode ` set (courses dummy_registry)"
    by (simp add: dummy_registry_value)
  have f: "find (\<lambda>c. courseCode c = ''CSE102'') (courses dummy_registry) =
     Some \<lparr>courseName = ''Data Structures'', courseCode = ''CSE102'',
           enrolledStudentIDs = [''S001'', ''S005'']\<rparr>"
    by (simp add: dummy_registry_value)
  have l: "course_report_path ''CSE102'' \<notin> locked no_files" by (simp add: no_files_def)
  have p: "course_report_path ''CSE102'' = ''Reports/CourseReports/CSE102.csv''"
    and p9: "course_report_path ''CSE999'' = ''Reports/CourseReports/CSE999.csv''"
    by (simp_all add: course_report_path_def)
  have q: "''Students/students.csv'' \<noteq> course_report_path ''CSE102''"
    by (simp add: course_report_path_def)
  have e: "contents no_files ''Reports/CourseReports/CSE999.csv'' = None"
    "contents no_files ''Students/students.csv'' = None"
    by (simp_all add: no_files_def)
  have c: "course_report_header @ concat (map report_line (List.map_filter (lookup_student dummy_registry)
        (enrolledStudentIDs \<lparr>courseName = ''Data Structures'', courseCode = ''CSE102'',
           enrolledStudentIDs = [''S001'', ''S005'']\<rparr>))) =
      ''StudentID,Name,Type'' @ [CHR 0x0A] @
         ''S001,Alice Johnson,Undergraduate'' @ [CHR 0x0A] @
         ''S005,Eve Davis,Postgraduate'' @ [CHR 0x0A]"
    by (simp add: dummy_registry_value lookup_student_def List.map_filter_simps report_line_def
        course_report_header_def)
  note t = course_report[where code = "''CSE999''" and R = dummy_registry and fs = no_files]
    course_report[where code = "''CSE102''" and R = dummy_registry and fs = no_files]
  have t1: "generateReportForCourse ''CSE999'' dummy_registry no_files = (NotFound, no_files)"
    using t(1) n by blast
  have t2: "contents (snd (generateReportForCourse ''CSE999'' dummy_registry no_files))
      (course_report_path ''CSE999'') = contents no_files (course_report_path ''CSE999'')"
    using t(1) n by blast
  have t3: "generateReportForCourse ''CSE102'' dummy_registry no_files =
        (Success, write_file (course_report_path ''CSE102'')
           (course_report_header @
            concat (map report_line (List.map_filter (lookup_student dummy_registry)
              (enrolledStudentIDs \<lparr>courseName = ''Data Structures'', courseCode = ''CSE102'',
           enrolledStudentIDs = [''S001'', ''S005'']\<rparr>)))) no_files)"
    using t(2) f l by blast
  have t4: "contents (snd (generateReportForCourse ''CSE102'' dummy_registry no_files))
      (course_report_path ''CSE102'') =
        Some (course_report_header @
            concat (map report_line (List.map_filter (lookup_student dummy_registry)
              (enrolledStudentIDs \<lparr>courseName = ''Data Structures'', courseCode = ''CSE102'',
           enrolledStudentIDs = [''S001'', ''S005'']\<rparr>))))"
    using t(2) f l by blast
  have t5: "contents (snd (generateReportForCourse ''CSE102'' dummy_registry no_files))
      ''Students/students.csv'' = contents no_files ''Students/students.csv''"
    using t(2) f l q by blast
  have t6: "fst (generateReportForCourse ''CSE102'' dummy_registry no_files) = Success"
    by (simp add: t3)
  show ?thesis using t1 t2[unfolded p9 e] f t6 t4[unfolded c p] t5[unfolded e]
    by (simp only: simp_thms)
qed


section \<open>Reading back what was written\<close>

lemma getline_field:
  assumes "d \<notin> set f"
  shows "getline d (Some (f @ d # rest)) str = (True, f, Some rest)"
proof -
  have "takeWhile (\<lambda>c. c \<noteq> d) (f @ d # rest) = f"
    using assms by (induction f) auto
  moreover have "dropWhile (\<lambda>c. c \<noteq> d) (f @ d # rest) = d # rest"
    using assms by (induction f) auto
  ultimately show ?thesis by simp
qed

lemma getline_last:
  assumes "d \<notin> set f"
  shows "getline d (Some f) str = (f \<noteq> [], f, None)"
  using assms by simp

lemma read_all_None: "read_all d None = []"
  by (simp add: read_all.simps)

lemma read_all_empty: "read_all d (Some []) = []"
  by (simp add: read_all.simps)

lemma read_all_field:
  assumes "d \<notin> set f"
  shows "read_all d (Some (f @ d # rest)) = f # read_all d (Some rest)"
proof -
  have "read_all d (Some (f @ d # rest)) =
      (case getline d (Some (f @ d # rest)) [] of
         (False, _, _) \<Rightarrow> []
       | (True, str, is') \<Rightarrow> str # read_all d is')"
    by (rule read_all.simps)
  also have "getline d (Some (f @ d # rest)) [] = (True, f, Some rest)"
    by (rule getline_field[OF assms])
  finally show ?thesis by simp
qed

lemma read_all_last:
  "d \<notin> set f \<Longrightarrow> f \<noteq> [] \<Longrightarrow> read_all d (Some f) = [f]"
  by (subst read_all.simps) (simp add: read_all_None)

lemma read_all_terminated:
  "\<forall>l\<in>set ls. d \<notin> set l \<Longrightarrow> read_all d (Some (concat (map (\<lambda>l. l @ [d]) ls))) = ls"
  by (induction ls) (simp_all add: read_all_empty read_all_field)

lemma join_semicolon_Nil_iff: "\<forall>x\<in>set xs. x \<noteq> [] \<Longrightarrow> join_semicolon xs = [] \<longleftrightarrow> xs = []"
  by (induction xs rule: join_semicolon.induct) auto

lemma set_join_semicolon:
  "set (join_semicolon xs) \<subseteq> (\<Union>x\<in>set xs. set x) \<union> {CHR '';''}"
  by (induction xs rule: join_semicolon.induct) auto

lemma read_all_join:
  "xs \<noteq> [] \<Longrightarrow> \<forall>x\<in>set xs. x \<noteq> [] \<and> CHR '';'' \<notin> set x \<Longrightarrow>
   read_all CHR '';'' (Some (join_semicolon xs)) = xs"
proof (induction xs rule: join_semicolon.induct)
  case 1
  then show ?case by simp
next
  case (2 x)
  then show ?case by (simp add: read_all_last)
next
  case (3 x y ys)
  then show ?case by (simp add: read_all_field)
qed

lemma newline_free_join:
  "\<forall>x\<in>set xs. CHR 0x0A \<notin> set x \<Longrightarrow> CHR 0x0A \<notin> set (join_semicolon xs)"
  using set_join_semicolon[of xs] by auto

lemma comma_free_getType: "CHR '','' \<notin> set (getType k)"
  by (cases k) simp_all

lemma newline_free_getType: "CHR 0x0A \<notin> set (getType k)"
  by (cases k) simp_all

lemma find_index_from_append_new:
  "\<forall>x\<in>set xs. \<not> P x \<Longrightarrow> P y \<Longrightarrow> find_index_from P (xs @ [y]) n = Some (n + length xs)"
  by (induction xs arbitrary: n) auto

lemma addStudent_fresh:
  assumes "sid \<notin> studentID ` set (students R)"
  shows "addStudent nm sid (getType k) R =
    (Success, R\<lparr>students := students R @
       [\<lparr>name = nm, studentID = sid, enrolledCourses = [], kind = k\<rparr>]\<rparr>)"
  using assms by (cases k) (simp_all add: addStudent_def findStudentIndex_None)

lemma addCourse_fresh:
  assumes "code \<notin> courseCode ` set (courses R)"
  shows "addCourse cname code R =
    (Success, R\<lparr>courses := courses R @
       [\<lparr>courseName = cname, courseCode = code, enrolledStudentIDs = []\<rparr>]\<rparr>)"
  using assms by (simp add: addCourse_def findCourseIndex_None)

lemma load_student_code_last:
  assumes "studentID s0 \<notin> studentID ` set xs" "code \<notin> set (enrolledCourses s0)"
  shows "load_student_code (studentID s0) code (R\<lparr>students := xs @ [s0]\<rparr>) =
     R\<lparr>students := xs @ [s0\<lparr>enrolledCourses := enrolledCourses s0 @ [code]\<rparr>]\<rparr>"
proof -
  have "\<forall>x\<in>set xs. studentID x \<noteq> studentID s0"
    using assms(1) by (metis imageI)
  then have "find_index_from (\<lambda>s. studentID s = studentID s0) (xs @ [s0]) 0 = Some (0 + length xs)"
    by (rule find_index_from_append_new) simp
  then have "findStudentIndex (R\<lparr>students := xs @ [s0]\<rparr>) (studentID s0) = Some (length xs)"
    by (simp add: findStudentIndex_def)
  then show ?thesis using assms(2) by (simp add: load_student_code_def Student_addCourse_def)
qed

lemma fold_load_student_code:
  assumes "studentID s0 \<notin> studentID ` set xs" "distinct (enrolledCourses s0 @ codes)"
  shows "fold (load_student_code (studentID s0)) codes (R\<lparr>students := xs @ [s0]\<rparr>) =
     R\<lparr>students := xs @ [s0\<lparr>enrolledCourses := enrolledCourses s0 @ codes\<rparr>]\<rparr>"
  using assms
proof (induction codes arbitrary: s0)
  case Nil
  then show ?case by simp
next
  case (Cons c codes)
  let ?s1 = "s0\<lparr>enrolledCourses := enrolledCourses s0 @ [c]\<rparr>"
  have a: "studentID ?s1 \<notin> studentID ` set xs" using Cons.prems(1) by simp
  have b: "distinct (enrolledCourses ?s1 @ codes)" using Cons.prems(2) by simp
  have c: "c \<notin> set (enrolledCourses s0)" using Cons.prems(2) by simp
  have "fold (load_student_code (studentID s0)) (c # codes) (R\<lparr>students := xs @ [s0]\<rparr>) =
        fold (load_student_code (studentID ?s1)) codes (R\<lparr>students := xs @ [?s1]\<rparr>)"
    by (simp add: load_student_code_last[OF Cons.prems(1) c])
  also have "\<dots> = R\<lparr>students := xs @ [?s1\<lparr>enrolledCourses := enrolledCourses ?s1 @ codes\<rparr>]\<rparr>"
    by (rule Cons.IH[OF a b])
  finally show ?case by simp
qed

lemma load_course_student_last:
  assumes "courseCode c0 \<notin> courseCode ` set xs" "sid \<notin> set (enrolledStudentIDs c0)"
  shows "load_course_student (courseCode c0) sid (R\<lparr>courses := xs @ [c0]\<rparr>) =
     R\<lparr>courses := xs @ [c0\<lparr>enrolledStudentIDs := enrolledStudentIDs c0 @ [sid]\<rparr>]\<rparr>"
proof -
  have "\<forall>x\<in>set xs. courseCode x \<noteq> courseCode c0"
    using assms(1) by (metis imageI)
  then have "find_index_from (\<lambda>c. courseCode c = courseCode c0) (xs @ [c0]) 0 = Some (0 + length xs)"
    by (rule find_index_from_append_new) simp
  then have "findCourseIndex (R\<lparr>courses := xs @ [c0]\<rparr>) (courseCode c0) = Some (length xs)"
    by (simp add: findCourseIndex_def)
  then show ?thesis using assms(2) by (simp add: load_course_student_def Course_addStudent_def)
qed

lemma fold_load_course_student:
  assumes "courseCode c0 \<notin> courseCode ` set xs" "distinct (enrolledStudentIDs c0 @ ids)"
  shows "fold (load_course_student (courseCode c0)) ids (R\<lparr>courses := xs @ [c0]\<rparr>) =
     R\<lparr>courses := xs @ [c0\<lparr>enrolledStudentIDs := enrolledStudentIDs c0 @ ids\<rparr>]\<rparr>"
  using assms
proof (induction ids arbitrary: c0)
  case Nil
  then show ?case by simp
next
  case (Cons i ids)
  let ?c1 = "c0\<lparr>enrolledStudentIDs := enrolledStudentIDs c0 @ [i]\<rparr>"
  have a: "courseCode ?c1 \<notin> courseCode ` set xs" using Cons.prems(1) by simp
  have b: "distinct (enrolledStudentIDs ?c1 @ ids)" using Cons.prems(2) by simp
  have c: "i \<notin> set (enrolledStudentIDs c0)" using Cons.prems(2) by simp
  have "fold (load_course_student (courseCode c0)) (i # ids) (R\<lparr>courses := xs @ [c0]\<rparr>) =
        fold (load_course_student (courseCode ?c1)) ids (R\<lparr>courses := xs @ [?c1]\<rparr>)"
    by (simp add: load_course_student_last[OF Cons.prems(1) c])
  also have "\<dots> = R\<lparr>courses := xs @ [?c1\<lparr>enrolledStudentIDs := enrolledStudentIDs ?c1 @ ids\<rparr>]\<rparr>"
    by (rule Cons.IH[OF a b])
  finally show ?case by simp
qed

lemma entries_ok:
  assumes "list_all entry_ok xs"
  shows "\<forall>x\<in>set xs. x \<noteq> []" "\<forall>x\<in>set xs. x \<noteq> [] \<and> CHR '';'' \<notin> set x"
    "\<forall>x\<in>set xs. CHR 0x0A \<notin> set x"
  using assms by (auto simp: list_all_iff entry_ok_def)

lemma newline_free_student_line:
  assumes "student_ok s" shows "CHR 0x0A \<notin> set (student_line s)"
proof -
  have "CHR 0x0A \<notin> set (join_semicolon (enrolledCourses s))"
    using assms by (intro newline_free_join entries_ok(3)) (simp add: student_ok_def)
  then show ?thesis
    using assms newline_free_getType[of "kind s"]
    by (simp add: student_line_def student_ok_def field_ok_def)
qed

lemma newline_free_course_line:
  assumes "course_ok c" shows "CHR 0x0A \<notin> set (course_line c)"
proof -
  have "CHR 0x0A \<notin> set (join_semicolon (enrolledStudentIDs c))"
    using assms by (intro newline_free_join entries_ok(3)) (simp add: course_ok_def)
  then show ?thesis
    using assms by (simp add: course_line_def course_ok_def field_ok_def)
qed

lemma load_student_line_row:
  assumes ok: "student_ok s" and fresh: "studentID s \<notin> studentID ` set (students R)"
  shows "load_student_line (student_line s) R = R\<lparr>students := students R @ [s]\<rparr>"
proof -
  let ?cs = "join_semicolon (enrolledCourses s)"
  let ?s0 = "\<lparr>name = name s, studentID = studentID s, enrolledCourses = [], kind = kind s\<rparr>"
  from ok have f: "CHR '','' \<notin> set (studentID s)" "CHR '','' \<notin> set (name s)"
    and d: "distinct (enrolledCourses s)" and e: "list_all entry_ok (enrolledCourses s)"
    by (simp_all add: student_ok_def field_ok_def)
  have ne: "student_line s \<noteq> []" by (simp add: student_line_def)
  have g1: "getline CHR '','' (Some (student_line s)) [] =
      (True, studentID s, Some (name s @ CHR '','' # getType (kind s) @ CHR '','' # ?cs))"
    using getline_field[OF f(1)] by (simp add: student_line_def del: getline.simps)
  have g2: "getline CHR '','' (Some (name s @ CHR '','' # getType (kind s) @ CHR '','' # ?cs)) [] =
      (True, name s, Some (getType (kind s) @ CHR '','' # ?cs))"
    by (rule getline_field[OF f(2)])
  have g3: "getline CHR '','' (Some (getType (kind s) @ CHR '','' # ?cs)) [] =
      (True, getType (kind s), Some ?cs)"
    by (rule getline_field[OF comma_free_getType])
  have g4: "getline (CHR 0x0A) (Some ?cs) [] = (?cs \<noteq> [], ?cs, None)"
    by (rule getline_last[OF newline_free_join[OF entries_ok(3)[OF e]]])
  have add: "snd (addStudent (name s) (studentID s) (getType (kind s)) R) =
      R\<lparr>students := students R @ [?s0]\<rparr>"
    by (simp add: addStudent_fresh[OF fresh])
  have line: "load_student_line (student_line s) R =
      (if ?cs \<noteq> []
       then fold (load_student_code (studentID s)) (read_all CHR '';'' (Some ?cs))
              (R\<lparr>students := students R @ [?s0]\<rparr>)
       else R\<lparr>students := students R @ [?s0]\<rparr>)"
    unfolding load_student_line_def by (simp only: ne g1 g2 g3 g4 add if_False prod.case Let_def)
  show ?thesis
  proof (cases "enrolledCourses s = []")
    case True
    then have "?cs = []" by simp
    moreover have "?s0 = s" using True by simp
    ultimately show ?thesis using line by simp
  next
    case False
    then have cs: "?cs \<noteq> []" using join_semicolon_Nil_iff[OF entries_ok(1)[OF e]] by simp
    have r: "read_all CHR '';'' (Some ?cs) = enrolledCourses s"
      by (rule read_all_join[OF False entries_ok(2)[OF e]])
    have "fold (load_student_code (studentID ?s0)) (enrolledCourses s)
              (R\<lparr>students := students R @ [?s0]\<rparr>) =
          R\<lparr>students := students R @ [?s0\<lparr>enrolledCourses := enrolledCourses ?s0 @ enrolledCourses s\<rparr>]\<rparr>"
      using fresh d by (intro fold_load_student_code) simp_all
    moreover have "?s0\<lparr>enrolledCourses := enrolledCourses ?s0 @ enrolledCourses s\<rparr> = s" by simp
    ultimately show ?thesis using line cs r by simp
  qed
qed

lemma load_course_line_row:
  assumes ok: "course_ok c" and fresh: "courseCode c \<notin> courseCode ` set (courses R)"
  shows "load_course_line (course_line c) R = R\<lparr>courses := courses R @ [c]\<rparr>"
proof -
  let ?is = "join_semicolon (enrolledStudentIDs c)"
  let ?c0 = "\<lparr>courseName = courseName c, courseCode = courseCode c, enrolledStudentIDs = []\<rparr>"
  from ok have f: "CHR '','' \<notin> set (courseCode c)" "CHR '','' \<notin> set (courseName c)"
    and d: "distinct (enrolledStudentIDs c)" and e: "list_all entry_ok (enrolledStudentIDs c)"
    by (simp_all add: course_ok_def field_ok_def)
  have ne: "course_line c \<noteq> []" by (simp add: course_line_def)
  have g1: "getline CHR '','' (Some (course_line c)) [] =
      (True, courseCode c, Some (courseName c @ CHR '','' # ?is))"
    using getline_field[OF f(1)] by (simp add: course_line_def del: getline.simps)
  have g2: "getline CHR '','' (Some (courseName c @ CHR '','' # ?is)) [] =
      (True, courseName c, Some ?is)"
    by (rule getline_field[OF f(2)])
  have g3: "getline (CHR 0x0A) (Some ?is) [] = (?is \<noteq> [], ?is, None)"
    by (rule getline_last[OF newline_free_join[OF entries_ok(3)[OF e]]])
  have add: "snd (addCourse (courseName c) (courseCode c) R) = R\<lparr>courses := courses R @ [?c0]\<rparr>"
    by (simp add: addCourse_fresh[OF fresh])
  have line: "load_course_line (course_line c) R =
      (if ?is \<noteq> []
       then fold (load_course_student (courseCode c)) (read_all CHR '';'' (Some ?is))
              (R\<lparr>courses := courses R @ [?c0]\<rparr>)
       else R\<lparr>courses := courses R @ [?c0]\<rparr>)"
    unfolding load_course_line_def by (simp only: ne g1 g2 g3 add if_False prod.case Let_def)
  show ?thesis
  proof (cases "enrolledStudentIDs c = []")
    case True
    then have "?is = []" by simp
    moreover have "?c0 = c" using True by simp
    ultimately show ?thesis using line by simp
  next
    case False
    then have cs: "?is \<noteq> []" using join_semicolon_Nil_iff[OF entries_ok(1)[OF e]] by simp
    have r: "read_all CHR '';'' (Some ?is) = enrolledStudentIDs c"
      by (rule read_all_join[OF False entries_ok(2)[OF e]])
    have "fold (load_course_student (courseCode ?c0)) (enrolledStudentIDs c)
              (R\<lparr>courses := courses R @ [?c0]\<rparr>) =
          R\<lparr>courses := courses R @ [?c0\<lparr>enrolledStudentIDs := enrolledStudentIDs ?c0 @ enrolledStudentIDs c\<rparr>]\<rparr>"
      using fresh d by (intro fold_load_course_student) simp_all
    moreover have "?c0\<lparr>enrolledStudentIDs := enrolledStudentIDs ?c0 @ enrolledStudentIDs c\<rparr> = c" by simp
    ultimately show ?thesis using line cs r by simp
  qed
qed

lemma fold_load_student_lines:
  "list_all student_ok ss \<Longrightarrow> distinct (map studentID ss) \<Longrightarrow>
   studentID ` set ss \<inter> studentID ` set (students R) = {} \<Longrightarrow>
   fold load_student_line (map student_line ss) R = R\<lparr>students := students R @ ss\<rparr>"
proof (induction ss arbitrary: R)
  case Nil
  then show ?case by simp
next
  case (Cons s ss)
  have fresh: "studentID s \<notin> studentID ` set (students R)" using Cons.prems(3) by auto
  have ok: "student_ok s" using Cons.prems(1) by simp
  have step: "load_student_line (student_line s) R = R\<lparr>students := students R @ [s]\<rparr>"
    by (rule load_student_line_row[OF ok fresh])
  have disj: "studentID ` set ss \<inter> studentID ` set (students (R\<lparr>students := students R @ [s]\<rparr>)) = {}"
    using Cons.prems(2,3) by auto
  have "fold load_student_line (map student_line ss) (R\<lparr>students := students R @ [s]\<rparr>) =
        R\<lparr>students := students R @ [s]\<rparr>\<lparr>students := students (R\<lparr>students := students R @ [s]\<rparr>) @ ss\<rparr>"
    using Cons.prems(1,2) by (intro Cons.IH[OF _ _ disj]) simp_all
  then show ?case by (simp add: step)
qed

lemma fold_load_course_lines:
  "list_all course_ok cs \<Longrightarrow> distinct (map courseCode cs) \<Longrightarrow>
   courseCode ` set cs \<inter> courseCode ` set (courses R) = {} \<Longrightarrow>
   fold load_course_line (map course_line cs) R = R\<lparr>courses := courses R @ cs\<rparr>"
proof (induction cs arbitrary: R)
  case Nil
  then show ?case by simp
next
  case (Cons c cs)
  have fresh: "courseCode c \<notin> courseCode ` set (courses R)" using Cons.prems(3) by auto
  have ok: "course_ok c" using Cons.prems(1) by simp
  have step: "load_course_line (course_line c) R = R\<lparr>courses := courses R @ [c]\<rparr>"
    by (rule load_course_line_row[OF ok fresh])
  have disj: "courseCode ` set cs \<inter> courseCode ` set (courses (R\<lparr>courses := courses R @ [c]\<rparr>)) = {}"
    using Cons.prems(2,3) by auto
  have "fold load_course_line (map course_line cs) (R\<lparr>courses := courses R @ [c]\<rparr>) =
        R\<lparr>courses := courses R @ [c]\<rparr>\<lparr>courses := courses (R\<lparr>courses := courses R @ [c]\<rparr>) @ cs\<rparr>"
    using Cons.prems(1,2) by (intro Cons.IH[OF _ _ disj]) simp_all
  then show ?case by (simp add: step)
qed

lemma loadStudentsFromCSV_rows:
  assumes "contents fs students_path = Some (students_header @ concat (map student_row ss))"
    and "list_all student_ok ss" "distinct (map studentID ss)"
    and "studentID ` set ss \<inter> studentID ` set (students R) = {}"
  shows "loadStudentsFromCSV fs R = R\<lparr>students := students R @ ss\<rparr>"
proof -
  have h: "getline (CHR 0x0A) (Some (students_header @ concat (map student_row ss))) [] =
      (True, ''StudentID,Name,Type,EnrolledCourses'', Some (concat (map student_row ss)))"
    using getline_field[of "CHR 0x0A" "''StudentID,Name,Type,EnrolledCourses''"]
    by (simp add: students_header_def del: getline.simps)
  have rows: "concat (map student_row ss) = concat (map (\<lambda>l. l @ [CHR 0x0A]) (map student_line ss))"
    by (induction ss) (simp_all add: student_row_def)
  have "\<forall>l\<in>set (map student_line ss). CHR 0x0A \<notin> set l"
    using assms(2) by (auto simp: list_all_iff newline_free_student_line)
  then have r: "read_all (CHR 0x0A) (Some (concat (map student_row ss))) = map student_line ss"
    unfolding rows by (rule read_all_terminated)
  show ?thesis
    unfolding loadStudentsFromCSV_def
    by (simp only: assms(1) option.case h prod.case r fold_load_student_lines[OF assms(2,3,4)])
qed

lemma loadCoursesFromCSV_rows:
  assumes "contents fs courses_path = Some (courses_header @ concat (map course_row cs))"
    and "list_all course_ok cs" "distinct (map courseCode cs)"
    and "courseCode ` set cs \<inter> courseCode ` set (courses R) = {}"
  shows "loadCoursesFromCSV fs R = R\<lparr>courses := courses R @ cs\<rparr>"
proof -
  have h: "getline (CHR 0x0A) (Some (courses_header @ concat (map course_row cs))) [] =
      (True, ''CourseCode,CourseName,EnrolledStudents'', Some (concat (map course_row cs)))"
    using getline_field[of "CHR 0x0A" "''CourseCode,CourseName,EnrolledStudents''"]
    by (simp add: courses_header_def del: getline.simps)
  have rows: "concat (map course_row cs) = concat (map (\<lambda>l. l @ [CHR 0x0A]) (map course_line cs))"
    by (induction cs) (simp_all add: course_row_def)
  have "\<forall>l\<in>set (map course_line cs). CHR 0x0A \<notin> set l"
    using assms(2) by (auto simp: list_all_iff newline_free_course_line)
  then have r: "read_all (CHR 0x0A) (Some (concat (map course_row cs))) = map course_line cs"
    unfolding rows by (rule read_all_terminated)
  show ?thesis
    unfolding loadCoursesFromCSV_def
    by (simp only: assms(1) option.case h prod.case r fold_load_course_lines[OF assms(2,3,4)])
qed

text \<open>Loading the two files written for a storable registry gives the registry back.\<close>

lemma loadData_rows:
  assumes "storable R"
    and "contents fs students_path = Some (students_header @ concat (map student_row (students R)))"
    and "contents fs courses_path = Some (courses_header @ concat (map course_row (courses R)))"
  shows "loadData fs empty_registry = R"
proof -
  from assms(1) have ok: "list_all student_ok (students R)" "distinct (map studentID (students R))"
    "list_all course_ok (courses R)" "distinct (map courseCode (courses R))"
    by (simp_all add: storable_def unique_keys_def)
  have s: "loadStudentsFromCSV fs empty_registry =
      empty_registry\<lparr>students := students empty_registry @ students R\<rparr>"
    by (rule loadStudentsFromCSV_rows[OF assms(2) ok(1,2)]) (simp add: empty_registry_def)
  have c: "loadCoursesFromCSV fs (loadStudentsFromCSV fs empty_registry) =
      (loadStudentsFromCSV fs empty_registry)
        \<lparr>courses := courses (loadStudentsFromCSV fs empty_registry) @ courses R\<rparr>"
    by (rule loadCoursesFromCSV_rows[OF assms(3) ok(3,4)]) (simp only: s, simp add: empty_registry_def)
  have s2: "loadStudentsFromCSV fs empty_registry = \<lparr>students = students R, courses = []\<rparr>"
    by (subst s) (simp add: empty_registry_def)
  show ?thesis unfolding loadData_def by (subst c) (simp add: s2)
qed

lemma save_contents:
  assumes "students_path \<notin> locked fs" "courses_path \<notin> locked fs"
  shows "contents (save R fs) students_path =
           Some (students_header @ concat (map student_row (students R)))"
    and "contents (save R fs) courses_path =
           Some (courses_header @ concat (map course_row (courses R)))"
  using assms
  by (simp_all add: save_def exportStudentsToCSV_def exportCoursesToCSV_def write_file_def
      students_path_def courses_path_def)

lemma load_save:
  assumes "storable R" "students_path \<notin> locked fs" "courses_path \<notin> locked fs"
  shows "loadData (save R fs) empty_registry = R"
  by (rule loadData_rows[OF assms(1) save_contents[OF assms(2,3)]])

lemma save_idempotent: "save R (save R fs) = save R fs"
  by (simp add: save_def exportStudentsToCSV_def exportCoursesToCSV_def write_file_def
      students_path_def courses_path_def fun_upd_twist)

lemma storable_dummy_registry: "storable dummy_registry"
  by (simp add: dummy_registry_value storable_def unique_keys_def student_ok_def course_ok_def
      field_ok_def entry_ok_def)

lemma no_files_unlocked: "students_path \<notin> locked no_files" "courses_path \<notin> locked no_files"
  by (simp_all add: no_files_def)

section \<open>The text codec: round trip, idempotent save, unchecked references\<close>

text \<open>
  Claim C2, as amended. Let the registry have unique student ids and course codes, ids,
  names and codes without comma or newline, and transcripts and rosters that are
  duplicate-free lists of non-empty entries without semicolon or newline (\<open>storable\<close>), and
  let both files be writable. Then loading the saved files into the empty registry gives
  the registry back: the same student ids, course codes and enrollment pairs, each
  student's kind and name and each course's name as they were.
\<close>

theorem round_trip:
  assumes "storable R" "students_path \<notin> locked fs" "courses_path \<notin> locked fs"
  shows "loadData (save R fs) empty_registry = R \<and>
    set (map studentID (students (loadData (save R fs) empty_registry))) = set (map studentID (students R)) \<and>
    set (map courseCode (courses (loadData (save R fs) empty_registry))) = set (map courseCode (courses R)) \<and>
    transcript_pairs (loadData (save R fs) empty_registry) = transcript_pairs R \<and>
    roster_pairs (loadData (save R fs) empty_registry) = roster_pairs R \<and>
    map (\<lambda>s. (studentID s, name s, kind s)) (students (loadData (save R fs) empty_registry)) =
      map (\<lambda>s. (studentID s, name s, kind s)) (students R) \<and>
    map (\<lambda>c. (courseCode c, courseName c)) (courses (loadData (save R fs) empty_registry)) =
      map (\<lambda>c. (courseCode c, courseName c)) (courses R)"
  by (simp only: load_save[OF assms] simp_thms)

theorem round_trip_witness:
  "storable dummy_registry \<and> students_path \<notin> locked no_files \<and> courses_path \<notin> locked no_files \<and>
   loadData (save dummy_registry no_files) empty_registry = dummy_registry \<and>
   contents (save dummy_registry no_files) courses_path =
     Some (''CourseCode,CourseName,EnrolledStudents'' @ [CHR 0x0A] @
           ''CSE101,Introduction to Programming,S001;S002;S005'' @ [CHR 0x0A] @
           ''CSE102,Data Structures,S001;S005'' @ [CHR 0x0A] @
           ''CSE103,Algorithms,S003'' @ [CHR 0x0A] @
           ''CSE104,Operating Systems,S004;S005'' @ [CHR 0x0A])"
proof -
  have c: "contents (save dummy_registry no_files) courses_path =
     Some (''CourseCode,CourseName,EnrolledStudents'' @ [CHR 0x0A] @
           ''CSE101,Introduction to Programming,S001;S002;S005'' @ [CHR 0x0A] @
           ''CSE102,Data Structures,S001;S005'' @ [CHR 0x0A] @
           ''CSE103,Algorithms,S003'' @ [CHR 0x0A] @
           ''CSE104,Operating Systems,S004;S005'' @ [CHR 0x0A])"
    by (simp add: save_contents[OF no_files_unlocked] dummy_registry_value courses_header_def
        course_row_def course_line_def)
  from round_trip[OF storable_dummy_registry no_files_unlocked]
  have "loadData (save dummy_registry no_files) empty_registry = dummy_registry" by blast
  with storable_dummy_registry no_files_unlocked c show ?thesis by (simp only: simp_thms)
qed

text \<open>
  The claim as stated, for every registry, fails: a course name with a comma is cut at the
  comma when read back, and the rest of the name becomes a roster entry.
\<close>

theorem round_trip_counterexample:
  "map courseName (courses (run [AddCourse ''Algorithms, Advanced'' ''CSE103''] empty_registry)) =
     [''Algorithms, Advanced''] \<and>
   map enrolledStudentIDs (courses (run [AddCourse ''Algorithms, Advanced'' ''CSE103''] empty_registry)) =
     [[]] \<and>
   map courseName (courses (loadData
      (save (run [AddCourse ''Algorithms, Advanced'' ''CSE103''] empty_registry) no_files)
      empty_registry)) = [''Algorithms''] \<and>
   map enrolledStudentIDs (courses (loadData
      (save (run [AddCourse ''Algorithms, Advanced'' ''CSE103''] empty_registry) no_files)
      empty_registry)) = [['' Advanced,'']] \<and>
   loadData (save (run [AddCourse ''Algorithms, Advanced'' ''CSE103''] empty_registry) no_files)
      empty_registry \<noteq> run [AddCourse ''Algorithms, Advanced'' ''CSE103''] empty_registry"
  by code_simp

text \<open>
  Claim C6, as amended. Saving twice in a row leaves the file system as the first save
  left it, for every registry and file system. For a storable registry and writable files,
  saving, loading into the empty registry and saving again writes the same bytes as the
  first save.
\<close>

theorem save_idempotent_amended:
  "save R (save R fs) = save R fs \<and>
   (storable R \<and> students_path \<notin> locked fs \<and> courses_path \<notin> locked fs \<longrightarrow>
      save (loadData (save R fs) empty_registry) (save R fs) = save R fs \<and>
      save (loadData (save R fs) empty_registry) fs = save R fs)"
proof (intro conjI impI)
  show "save R (save R fs) = save R fs" by (rule save_idempotent)
next
  assume a: "storable R \<and> students_path \<notin> locked fs \<and> courses_path \<notin> locked fs"
  then have l: "loadData (save R fs) empty_registry = R" by (simp add: load_save)
  show "save (loadData (save R fs) empty_registry) (save R fs) = save R fs"
    by (simp only: l save_idempotent)
  show "save (loadData (save R fs) empty_registry) fs = save R fs"
    by (simp only: l)
qed

theorem save_idempotent_amended_witness:
  "save dummy_registry (save dummy_registry no_files) = save dummy_registry no_files \<and>
   save (loadData (save dummy_registry no_files) empty_registry) no_files =
     save dummy_registry no_files \<and>
   contents (save dummy_registry no_files) students_path =
     Some (''StudentID,Name,Type,EnrolledCourses'' @ [CHR 0x0A] @
           ''S001,Alice Johnson,Undergraduate,CSE101;CSE102'' @ [CHR 0x0A] @
           ''S002,Bob Smith,Postgraduate,CSE101'' @ [CHR 0x0A] @
           ''S003,Charlie Brown,Undergraduate,CSE103'' @ [CHR 0x0A] @
           ''S004,David Williams,Undergraduate,CSE104'' @ [CHR 0x0A] @
           ''S005,Eve Davis,Postgraduate,CSE101;CSE102;CSE104'' @ [CHR 0x0A])"
proof -
  have c: "contents (save dummy_registry no_files) students_path =
     Some (''StudentID,Name,Type,EnrolledCourses'' @ [CHR 0x0A] @
           ''S001,Alice Johnson,Undergraduate,CSE101;CSE102'' @ [CHR 0x0A] @
           ''S002,Bob Smith,Postgraduate,CSE101'' @ [CHR 0x0A] @
           ''S003,Charlie Brown,Undergraduate,CSE103'' @ [CHR 0x0A] @
           ''S004,David Williams,Undergraduate,CSE104'' @ [CHR 0x0A] @
           ''S005,Eve Davis,Postgraduate,CSE101;CSE102;CSE104'' @ [CHR 0x0A])"
    by (simp add: save_contents[OF no_files_unlocked] dummy_registry_value students_header_def
        student_row_def student_line_def)
  from save_idempotent_amended[of dummy_registry no_files] storable_dummy_registry no_files_unlocked
  have "save dummy_registry (save dummy_registry no_files) = save dummy_registry no_files"
    and "save (loadData (save dummy_registry no_files) empty_registry) no_files =
     save dummy_registry no_files"
    by blast+
  with c show ?thesis by (simp only: simp_thms)
qed

text \<open>
  The second part fails for every registry: a student whose name has a comma is saved, is
  rejected when read back (the text after the comma is taken for the type), and is missing
  from the second save.
\<close>

theorem save_load_save_counterexample:
  "contents (save (run [AddStudent ''Smith, John'' ''S001'' ''Undergraduate''] empty_registry) no_files)
     students_path =
     Some (''StudentID,Name,Type,EnrolledCourses'' @ [CHR 0x0A] @
           ''S001,Smith, John,Undergraduate,'' @ [CHR 0x0A]) \<and>
   contents (save (loadData
       (save (run [AddStudent ''Smith, John'' ''S001'' ''Undergraduate''] empty_registry) no_files)
       empty_registry) no_files) students_path =
     Some (''StudentID,Name,Type,EnrolledCourses'' @ [CHR 0x0A]) \<and>
   contents (save (loadData
       (save (run [AddStudent ''Smith, John'' ''S001'' ''Undergraduate''] empty_registry) no_files)
       empty_registry) no_files) students_path \<noteq>
   contents (save (run [AddStudent ''Smith, John'' ''S001'' ''Undergraduate''] empty_registry) no_files)
     students_path"
  by code_simp



lemma loadCoursesFromCSV_missing:
  "contents fs courses_path = None \<Longrightarrow> loadCoursesFromCSV fs R = R"
  by (simp add: loadCoursesFromCSV_def)

lemma loadData_students_only:
  assumes "list_all student_ok ss" "distinct (map studentID ss)"
    and "contents fs students_path = Some (students_header @ concat (map student_row ss))"
    and "contents fs courses_path = None"
  shows "loadData fs empty_registry = \<lparr>students = ss, courses = []\<rparr>"
proof -
  have "loadStudentsFromCSV fs empty_registry =
      empty_registry\<lparr>students := students empty_registry @ ss\<rparr>"
    by (rule loadStudentsFromCSV_rows[OF assms(3) assms(1,2)]) (simp add: empty_registry_def)
  then show ?thesis
    by (simp add: loadData_def loadCoursesFromCSV_missing[OF assms(4)] empty_registry_def)
qed

text \<open>
  Claim C10. \<open>loadStudentsFromCSV\<close> puts every code of a student row into the transcript
  without looking for a course of that code. So when the students file holds the rows of a
  storable registry in which some transcript names a code that no course has, and the
  courses file holds the rows of its courses (or is missing, there being none), \<open>loadData\<close>
  builds that very registry: the transcript entry has no matching course and referential
  symmetry fails.
\<close>

theorem load_no_cross_reference_validation:
  assumes "storable R"
    and "contents fs students_path = Some (students_header @ concat (map student_row (students R)))"
    and "contents fs courses_path = None \<and> courses R = [] \<or>
         contents fs courses_path = Some (courses_header @ concat (map course_row (courses R)))"
    and "s \<in> set (students R)" "k \<in> set (enrolledCourses s)"
    and "k \<notin> courseCode ` set (courses R)"
  shows "loadData fs empty_registry = R \<and>
    s \<in> set (students (loadData fs empty_registry)) \<and>
    k \<notin> courseCode ` set (courses (loadData fs empty_registry)) \<and>
    \<not> referential_symmetry (loadData fs empty_registry)"
proof -
  have l: "loadData fs empty_registry = R"
    using assms(3)
  proof
    assume a: "contents fs courses_path = None \<and> courses R = []"
    from assms(1) have "list_all student_ok (students R)" "distinct (map studentID (students R))"
      by (simp_all add: storable_def unique_keys_def)
    from loadData_students_only[OF this assms(2)] a show ?thesis by simp
  next
    assume "contents fs courses_path = Some (courses_header @ concat (map course_row (courses R)))"
    then show ?thesis by (rule loadData_rows[OF assms(1,2)])
  qed
  have "\<not> referential_symmetry R"
  proof
    assume "referential_symmetry R"
    with assms(4,5) obtain c where "c \<in> set (courses R)" "courseCode c = k"
      unfolding referential_symmetry_def by blast
    with assms(6) show False by blast
  qed
  with l assms(4,6) show ?thesis by simp
qed

theorem load_no_cross_reference_validation_witness:
  "loadData orphan_files empty_registry =
     \<lparr>students = [\<lparr>name = ''Alice Johnson'', studentID = ''S001'',
                   enrolledCourses = [''CSE999''], kind = Undergraduate\<rparr>], courses = []\<rparr> \<and>
   ''CSE999'' \<notin> courseCode ` set (courses (loadData orphan_files empty_registry)) \<and>
   \<not> referential_symmetry (loadData orphan_files empty_registry)"
proof -
  let ?s = "\<lparr>name = ''Alice Johnson'', studentID = ''S001'',
                   enrolledCourses = [''CSE999''], kind = Undergraduate\<rparr>"
  let ?R = "\<lparr>students = [?s], courses = []\<rparr>"
  have a: "storable ?R"
    by (simp add: storable_def unique_keys_def student_ok_def field_ok_def entry_ok_def)
  have b: "contents orphan_files students_path =
      Some (students_header @ concat (map student_row (students ?R)))"
    by (simp add: orphan_files_def students_header_def student_row_def student_line_def)
  have c: "contents orphan_files courses_path = None \<and> courses ?R = [] \<or>
         contents orphan_files courses_path = Some (courses_header @ concat (map course_row (courses ?R)))"
    by (simp add: orphan_files_def students_path_def courses_path_def)
  have d: "?s \<in> set (students ?R)" "''CSE999'' \<in> set (enrolledCourses ?s)"
    "''CSE999'' \<notin> courseCode ` set (courses ?R)"
    by simp_all
  from load_no_cross_reference_validation[OF a b c d] show ?thesis by blast
qed

end
